theory Spec2Isabelle
  imports Complex_Main "HOL-Library.Word" "HOL-Library.AList"
begin

section \<open>Data model\<close>

text \<open>
  The service of \<^verbatim>\<open>src/main.py\<close> stores short texts with an embedding vector and
  metadata in a search engine and answers lexical, semantic and hybrid queries.

  A vector component is a Python float. Every float the local strategy produces is the
  quotient of an integer in \<open>0..99999\<close> by \<open>100000.0\<close>, that is the double nearest to
  that rational; the model keeps the rational itself.
\<close>

type_synonym vector = "rat list"

type_synonym doc_id = string

text \<open>
  A Python \<^verbatim>\<open>str\<close> is a sequence of Unicode code points. Texts, identifiers and names
  are only hashed, compared, stored and sent, and the model keeps them as the strings of
  their UTF-8 bytes. The credential is the one string the service strips, which Python
  does code point by code point, so the model keeps it as its code points.
\<close>

type_synonym codepoints = "nat list"

text \<open>The values of \<^verbatim>\<open>dict[str, Any]\<close>: JSON-like metadata, stored verbatim.\<close>

datatype json = JNull | JBool bool | JInt int | JStr string | JArr "json list"
  | JObj "(string \<times> json) list"

type_synonym metadata = "(string \<times> json) list"

text \<open>
  The \<^verbatim>\<open>_source\<close> of a stored document is a dictionary; the service reads its key
  \<^verbatim>\<open>"text"\<close> with \<^verbatim>\<open>[...]\<close> (KeyError when absent) and its key \<^verbatim>\<open>"meta"\<close> with
  \<^verbatim>\<open>.get("meta", {})\<close>, so each key may be absent.
\<close>

record source =
  src_text :: "string option"
  src_meta :: "metadata option"
  src_embedding :: "vector option"

text \<open>The detail messages of the service's \<^verbatim>\<open>HTTPException\<close>s.\<close>

datatype detail =
    Documento_no_encontrado
  | Falta_OPENAI_API_KEY
  | Dimension_embedding nat int

datatype es_exception = NotFoundError | ConnectionError | ConnectionTimeout | BadRequestError

datatype exn =
    HTTPException nat detail
  | ZeroDivisionError
  | KeyError string
  | OpenAIError string
  | EsException es_exception
  | RuntimeError string

text \<open>
  The module-level configuration, read once from the environment. The digest function of
  \<^verbatim>\<open>hashlib\<close> is a parameter: \<open>sha256 cfg t\<close> stands for
  \<^verbatim>\<open>hashlib.sha256(t.encode("utf-8")).digest()\<close>, a text being the string of its
  UTF-8 bytes. \<open>OPENAI_API_KEY\<close> and \<open>OPENAI_EMBED_MODEL\<close> are the environment
  variables \<^verbatim>\<open>openai_embed\<close> reads at each call (\<open>None\<close> when unset), the first
  as its code points.
\<close>

record config =
  ELASTIC_URL :: string
  INDEX_NAME :: string
  EMBEDDING_PROVIDER :: string
  EMBEDDING_DIM :: int
  sha256 :: "string \<Rightarrow> 8 word list"
  OPENAI_API_KEY :: "codepoints option"
  OPENAI_EMBED_MODEL :: "string option"

section \<open>Python primitives\<close>

text \<open>\<^verbatim>\<open>h * k\<close> on bytes: \<open>k\<close> copies, none when \<open>k \<le> 0\<close>.\<close>

definition bytes_repeat :: "'a list \<Rightarrow> int \<Rightarrow> 'a list" where
  "bytes_repeat h k = concat (replicate (nat k) h)"

text \<open>\<^verbatim>\<open>b[lo:hi]\<close> for \<open>0 \<le> lo \<le> hi\<close>: the slice is cut at the end of \<open>b\<close>.\<close>

definition py_slice :: "'a list \<Rightarrow> nat \<Rightarrow> nat \<Rightarrow> 'a list" where
  "py_slice b lo hi = take (hi - lo) (drop lo b)"

text \<open>\<^verbatim>\<open>range(n)\<close>: empty when \<open>n \<le> 0\<close>.\<close>

definition py_range :: "int \<Rightarrow> nat list" where
  "py_range n = [0 ..< nat n]"

text \<open>\<^verbatim>\<open>int.from_bytes(chunk, "little", signed=False)\<close>.\<close>

fun from_bytes_little :: "8 word list \<Rightarrow> int" where
  "from_bytes_little [] = 0"
| "from_bytes_little (b # bs) = uint b + 256 * from_bytes_little bs"

text \<open>
  The code points Python counts as whitespace (\<^verbatim>\<open>str.isspace\<close>, which
  \<^verbatim>\<open>str.strip()\<close> uses): the ASCII controls \<open>0x09..0x0D\<close> and \<open>0x1C..0x1F\<close>, the
  space, and the Unicode separators.
\<close>

definition is_space :: "nat \<Rightarrow> bool" where
  "is_space c = (c \<in> set
     [0x09, 0x0A, 0x0B, 0x0C, 0x0D, 0x1C, 0x1D, 0x1E, 0x1F, 0x20, 0x85, 0xA0, 0x1680,
      0x2000, 0x2001, 0x2002, 0x2003, 0x2004, 0x2005, 0x2006, 0x2007, 0x2008, 0x2009,
      0x200A, 0x2028, 0x2029, 0x202F, 0x205F, 0x3000])"

text \<open>\<^verbatim>\<open>str.strip()\<close>: whitespace is removed at both ends.\<close>

definition py_strip :: "codepoints \<Rightarrow> codepoints" where
  "py_strip s = rev (dropWhile is_space (rev (dropWhile is_space s)))"

section \<open>Embeddings\<close>

text \<open>
  \<^verbatim>\<open>fake_embed\<close>, lines 40-48. \<^verbatim>\<open>len(h)\<close> divides, so an empty digest raises
  \<^verbatim>\<open>ZeroDivisionError\<close>.
\<close>

definition fake_embed :: "config \<Rightarrow> string \<Rightarrow> exn + vector" where
  "fake_embed cfg text =
     (let h = sha256 cfg text in
      if length h = 0 then Inl ZeroDivisionError
      else
        let b = bytes_repeat h ((EMBEDDING_DIM cfg * 4 div int (length h)) + 1) in
        Inr (map (\<lambda>i. let chunk = py_slice b (i * 4) ((i + 1) * 4);
                          n = from_bytes_little chunk
                      in of_int (n mod 100000) / 100000)
                 (py_range (EMBEDDING_DIM cfg))))"

text \<open>
  The reference function of the specification, in its words: the digest's byte stream is
  stretched by repetition, so the byte at position \<open>p\<close> of the stream is the byte
  \<open>p mod length h\<close> of the digest; component \<open>i\<close> reads the four bytes at
  \<open>4 i .. 4 i + 3\<close> as a little-endian unsigned number, reduces it modulo 100000 and
  divides by 100000.
\<close>

definition spec_stream_byte :: "8 word list \<Rightarrow> nat \<Rightarrow> 8 word" where
  "spec_stream_byte h p = h ! (p mod length h)"

definition spec_component :: "8 word list \<Rightarrow> nat \<Rightarrow> rat" where
  "spec_component h i =
     of_int ((uint (spec_stream_byte h (4 * i))
              + 256 * uint (spec_stream_byte h (4 * i + 1))
              + 65536 * uint (spec_stream_byte h (4 * i + 2))
              + 16777216 * uint (spec_stream_byte h (4 * i + 3))) mod 100000) / 100000"

definition spec_local_embed :: "8 word list \<Rightarrow> int \<Rightarrow> vector" where
  "spec_local_embed h D = map (spec_component h) [0 ..< nat D]"

section \<open>The outside world\<close>

text \<open>
  The service keeps no state of its own: what it reads and changes lies outside, in the
  search engine, the embedding service and the generator of identifiers.
\<close>

datatype field_mapping = TextField | ObjectField bool | DenseVector int bool string

type_synonym mapping = "(string \<times> field_mapping) list"

datatype query = Match string string | BoolShould "query list"

record knn =
  knn_field :: string
  knn_query_vector :: vector
  knn_k :: int
  knn_num_candidates :: int

record search_body =
  sb_size :: int
  sb_query :: "query option"
  sb_knn :: "knn option"

text \<open>The requests the service sends through the Elasticsearch client.\<close>

datatype es_request =
    Ping
  | IndicesExists string
  | IndicesCreate string mapping
  | IndicesRefresh string
  | Index string doc_id source
  | Delete string doc_id
  | Get string doc_id
  | Search string search_body

record hit =
  hit_id :: doc_id
  hit_source :: source
  hit_score :: rat

text \<open>
  A collection of the store: its field mapping, its documents by id, and the snapshot of
  them that searches see (the documents as of the last visibility sync).
\<close>

record es_index =
  ix_mapping :: mapping
  ix_docs :: "(doc_id \<times> source) list"
  ix_searchable :: "(doc_id \<times> source) list"

text \<open>
  \<^item> \<open>es_log\<close>: every request sent to the store so far, oldest first;
  \<^item> \<open>es_faults\<close>: the transport failure, if any, that meets the \<open>n\<close>-th request;
  \<^item> \<open>es_indices\<close>: the collections of the store by name;
  \<^item> \<open>es_ranking\<close>: the scoring internals of the engine: the score of a document for a
    request body, \<open>None\<close> when the document is not among the matches;
  \<^item> \<open>uuid_supply\<close>, \<open>uuid_calls\<close>: the \<open>n\<close>-th value of \<^verbatim>\<open>str(uuid4())\<close> and the
    number of values drawn;
  \<^item> \<open>openai_service\<close>, \<open>openai_calls\<close>: what the remote embedding service answers to
    its \<open>n\<close>-th call (credential, model, input), a failure message or the embedding of
    the first item, and the number of calls made.
\<close>

record world =
  es_log :: "es_request list"
  es_faults :: "nat \<Rightarrow> es_exception option"
  es_indices :: "string \<Rightarrow> es_index option"
  es_ranking :: "search_body \<Rightarrow> doc_id \<Rightarrow> source \<Rightarrow> rat option"
  uuid_supply :: "nat \<Rightarrow> doc_id"
  uuid_calls :: nat
  openai_service :: "nat \<Rightarrow> codepoints \<Rightarrow> string \<Rightarrow> string \<Rightarrow> string + vector"
  openai_calls :: nat

text \<open>
  A Python computation: it returns a value or raises, and changes the world either way.
\<close>

type_synonym 'a io = "world \<Rightarrow> (exn + 'a) \<times> world"

definition return :: "'a \<Rightarrow> 'a io" where
  "return x w = (Inr x, w)"

definition raise :: "exn \<Rightarrow> 'a io" where
  "raise e w = (Inl e, w)"

definition bind :: "'a io \<Rightarrow> ('a \<Rightarrow> 'b io) \<Rightarrow> 'b io" where
  "bind m f w = (case m w of (Inl e, w') \<Rightarrow> (Inl e, w') | (Inr x, w') \<Rightarrow> f x w')"

text \<open>
  \<^verbatim>\<open>try: m  except Exception: h\<close>. Every exception of \<open>exn\<close> is a subclass of
  \<^verbatim>\<open>Exception\<close>, so the handler takes them all.
\<close>

definition try_except :: "'a io \<Rightarrow> (exn \<Rightarrow> 'a io) \<Rightarrow> 'a io" where
  "try_except m h w = (case m w of (Inl e, w') \<Rightarrow> h e w' | (Inr x, w') \<Rightarrow> (Inr x, w'))"

subsection \<open>The identifier generator\<close>

definition uuid4 :: "doc_id io" where
  "uuid4 w = (Inr (uuid_supply w (uuid_calls w)), w\<lparr>uuid_calls := Suc (uuid_calls w)\<rparr>)"

subsection \<open>The Elasticsearch client\<close>

text \<open>
  Modelled from the spec: the Elasticsearch client and engine are a third-party library,
  absent from the repository. Section 4.6 of the specification describes the store as a
  transactional document store keyed by id that exposes exists/create-collection,
  get-by-id, upsert-by-id, delete-by-id, match-query, vector-query and a visibility-sync
  operation; a search returns up to \<open>size\<close> documents ordered by descending score.
  Every request is logged and may meet a transport failure, which leaves the store as
  it was. A request addressing a missing collection or a missing id raises
  \<open>NotFoundError\<close>, except an upsert, which creates the collection.
\<close>

definition es_send :: "es_request \<Rightarrow> (world \<Rightarrow> (exn + 'a) \<times> world) \<Rightarrow> 'a io" where
  "es_send req serve w =
     (let w1 = w\<lparr>es_log := es_log w @ [req]\<rparr> in
      case es_faults w (length (es_log w)) of
        Some e \<Rightarrow> (Inl (EsException e), w1)
      | None \<Rightarrow> serve w1)"

text \<open>\<^verbatim>\<open>es.ping()\<close> never raises: it answers whether the store was reached.\<close>

definition es_ping :: "bool io" where
  "es_ping w =
     (Inr (es_faults w (length (es_log w)) = None), w\<lparr>es_log := es_log w @ [Ping]\<rparr>)"

definition es_indices_exists :: "string \<Rightarrow> bool io" where
  "es_indices_exists idx =
     es_send (IndicesExists idx) (\<lambda>w. (Inr (es_indices w idx \<noteq> None), w))"

definition es_indices_create :: "string \<Rightarrow> mapping \<Rightarrow> unit io" where
  "es_indices_create idx mp =
     es_send (IndicesCreate idx mp)
       (\<lambda>w. case es_indices w idx of
               Some _ \<Rightarrow> (Inl (EsException BadRequestError), w)
             | None \<Rightarrow>
                 (Inr (), w\<lparr>es_indices := (es_indices w)
                    (idx \<mapsto> \<lparr>ix_mapping = mp, ix_docs = [], ix_searchable = []\<rparr>)\<rparr>))"

definition es_indices_refresh :: "string \<Rightarrow> unit io" where
  "es_indices_refresh idx =
     es_send (IndicesRefresh idx)
       (\<lambda>w. case es_indices w idx of
               None \<Rightarrow> (Inl (EsException NotFoundError), w)
             | Some ix \<Rightarrow>
                 (Inr (), w\<lparr>es_indices := (es_indices w)
                    (idx \<mapsto> ix\<lparr>ix_searchable := ix_docs ix\<rparr>)\<rparr>))"

definition es_index :: "string \<Rightarrow> doc_id \<Rightarrow> source \<Rightarrow> unit io" where
  "es_index idx i doc =
     es_send (Index idx i doc)
       (\<lambda>w. let ix = (case es_indices w idx of
                         None \<Rightarrow> \<lparr>ix_mapping = [], ix_docs = [], ix_searchable = []\<rparr>
                       | Some ix \<Rightarrow> ix)
             in (Inr (), w\<lparr>es_indices := (es_indices w)
                    (idx \<mapsto> ix\<lparr>ix_docs := AList.update i doc (ix_docs ix)\<rparr>)\<rparr>))"

definition es_delete :: "string \<Rightarrow> doc_id \<Rightarrow> unit io" where
  "es_delete idx i =
     es_send (Delete idx i)
       (\<lambda>w. case es_indices w idx of
               None \<Rightarrow> (Inl (EsException NotFoundError), w)
             | Some ix \<Rightarrow>
                 (case map_of (ix_docs ix) i of
                    None \<Rightarrow> (Inl (EsException NotFoundError), w)
                  | Some _ \<Rightarrow>
                      (Inr (), w\<lparr>es_indices := (es_indices w)
                         (idx \<mapsto> ix\<lparr>ix_docs := AList.delete i (ix_docs ix)\<rparr>)\<rparr>)))"

text \<open>\<^verbatim>\<open>es.get(index=..., id=...)["_source"]\<close>.\<close>

definition es_get :: "string \<Rightarrow> doc_id \<Rightarrow> source io" where
  "es_get idx i =
     es_send (Get idx i)
       (\<lambda>w. case es_indices w idx of
               None \<Rightarrow> (Inl (EsException NotFoundError), w)
             | Some ix \<Rightarrow>
                 (case map_of (ix_docs ix) i of
                    None \<Rightarrow> (Inl (EsException NotFoundError), w)
                  | Some doc \<Rightarrow> (Inr doc, w)))"

definition ranked_hits :: "(search_body \<Rightarrow> doc_id \<Rightarrow> source \<Rightarrow> rat option) \<Rightarrow>
    search_body \<Rightarrow> (doc_id \<times> source) list \<Rightarrow> hit list" where
  "ranked_hits rank body docs =
     take (nat (sb_size body))
       (sort_key (\<lambda>h. - hit_score h)
          (List.map_filter
             (\<lambda>(i, doc). map_option
                (\<lambda>s. \<lparr>hit_id = i, hit_source = doc, hit_score = s\<rparr>) (rank body i doc))
             docs))"

text \<open>\<^verbatim>\<open>es.search(...)["hits"]["hits"]\<close>.\<close>

definition es_search :: "string \<Rightarrow> search_body \<Rightarrow> hit list io" where
  "es_search idx body =
     es_send (Search idx body)
       (\<lambda>w. case es_indices w idx of
               None \<Rightarrow> (Inl (EsException NotFoundError), w)
             | Some ix \<Rightarrow> (Inr (ranked_hits (es_ranking w) body (ix_searchable ix)), w))"

section \<open>The service\<close>

subsection \<open>Requests and responses\<close>

record IngestRequest =
  frases :: "string list"
  metadatos :: "metadata option"

record SearchRequest =
  query :: string
  top_k :: int

record UpdateRequest =
  req_text :: "string option"
  req_metadatos :: "metadata option"

record ingest_response =
  inserted_count :: nat
  ids :: "doc_id list"

record update_response =
  upd_id :: doc_id
  upd_text :: string

record search_result =
  res_id :: doc_id
  res_text :: string
  res_meta :: metadata
  res_score :: rat

record search_response =
  sr_type :: string
  sr_results :: "search_result list"

subsection \<open>Embedding provider\<close>

text \<open>
  \<^verbatim>\<open>openai_embed\<close>, lines 50-66. A failure of the remote call is an exception of the
  client library, which the function does not catch.
\<close>

definition openai_embed :: "config \<Rightarrow> string \<Rightarrow> vector io" where
  "openai_embed cfg text w =
     (let api_key = py_strip (case OPENAI_API_KEY cfg of None \<Rightarrow> [] | Some k \<Rightarrow> k) in
      if api_key = [] then (Inl (HTTPException 500 Falta_OPENAI_API_KEY), w)
      else
        let model = (case OPENAI_EMBED_MODEL cfg of
                       None \<Rightarrow> ''text-embedding-3-small'' | Some m \<Rightarrow> m);
            w1 = w\<lparr>openai_calls := Suc (openai_calls w)\<rparr>
        in case openai_service w (openai_calls w) api_key model text of
             Inl msg \<Rightarrow> (Inl (OpenAIError msg), w1)
           | Inr vec \<Rightarrow>
               if int (length vec) \<noteq> EMBEDDING_DIM cfg
               then (Inl (HTTPException 500
                            (Dimension_embedding (length vec) (EMBEDDING_DIM cfg))), w1)
               else (Inr vec, w1))"

text \<open>\<^verbatim>\<open>embed\<close>, lines 68-71.\<close>

definition embed :: "config \<Rightarrow> string \<Rightarrow> vector io" where
  "embed cfg text w =
     (if EMBEDDING_PROVIDER cfg = ''openai'' then openai_embed cfg text w
      else (fake_embed cfg text, w))"

subsection \<open>Index schema\<close>

definition index_mapping :: "config \<Rightarrow> mapping" where
  "index_mapping cfg =
     [(''text'', TextField),
      (''meta'', ObjectField True),
      (''embedding'', DenseVector (EMBEDDING_DIM cfg) True ''cosine'')]"

text \<open>\<^verbatim>\<open>ensure_index\<close>, lines 74-95.\<close>

definition ensure_index :: "config \<Rightarrow> unit io" where
  "ensure_index cfg =
     bind (es_indices_exists (INDEX_NAME cfg))
       (\<lambda>found. if found then return ()
                else es_indices_create (INDEX_NAME cfg) (index_mapping cfg))"

text \<open>\<^verbatim>\<open>startup\<close>, lines 97-102.\<close>

definition startup :: "config \<Rightarrow> unit io" where
  "startup cfg =
     bind es_ping
       (\<lambda>reached. if \<not> reached then raise (RuntimeError (ELASTIC_URL cfg))
                  else ensure_index cfg)"

text \<open>\<^verbatim>\<open>create_index\<close>, lines 115-118.\<close>

definition create_index :: "config \<Rightarrow> (string \<times> int) io" where
  "create_index cfg =
     bind (ensure_index cfg) (\<lambda>_. return (INDEX_NAME cfg, EMBEDDING_DIM cfg))"

subsection \<open>Document lifecycle\<close>

text \<open>
  The loop of \<^verbatim>\<open>ingest\<close>, lines 127-136: for each text an id is drawn, the text is
  embedded, the document is stored and the id appended to \<open>acc\<close>.
\<close>

fun ingest_loop :: "config \<Rightarrow> metadata \<Rightarrow> string list \<Rightarrow> doc_id list \<Rightarrow> doc_id list io" where
  "ingest_loop cfg meta [] acc = return acc"
| "ingest_loop cfg meta (text # rest) acc =
     bind uuid4 (\<lambda>doc_id.
     bind (embed cfg text) (\<lambda>vec.
     bind (es_index (INDEX_NAME cfg) doc_id
             \<lparr>src_text = Some text, src_meta = Some meta, src_embedding = Some vec\<rparr>) (\<lambda>_.
     ingest_loop cfg meta rest (acc @ [doc_id]))))"

text \<open>
  \<^verbatim>\<open>ingest\<close>, lines 120-139. \<^verbatim>\<open>req.metadatos or {}\<close> takes the empty dictionary for
  \<^verbatim>\<open>None\<close> and for a dictionary that is empty already.
\<close>

definition ingest :: "config \<Rightarrow> IngestRequest \<Rightarrow> ingest_response io" where
  "ingest cfg req =
     bind (ensure_index cfg) (\<lambda>_.
     let meta = (case metadatos req of None \<Rightarrow> [] | Some m \<Rightarrow> if m = [] then [] else m) in
     bind (ingest_loop cfg meta (frases req) []) (\<lambda>acc.
     bind (es_indices_refresh (INDEX_NAME cfg)) (\<lambda>_.
     return \<lparr>inserted_count = length acc, ids = acc\<rparr>)))"

text \<open>\<^verbatim>\<open>delete_document\<close>, lines 141-148.\<close>

definition delete_document :: "config \<Rightarrow> doc_id \<Rightarrow> doc_id io" where
  "delete_document cfg doc_id =
     bind (try_except (es_delete (INDEX_NAME cfg) doc_id)
             (\<lambda>_. raise (HTTPException 404 Documento_no_encontrado))) (\<lambda>_.
     bind (es_indices_refresh (INDEX_NAME cfg)) (\<lambda>_.
     return doc_id))"

text \<open>\<^verbatim>\<open>update_document\<close>, lines 150-169.\<close>

definition update_document :: "config \<Rightarrow> doc_id \<Rightarrow> UpdateRequest \<Rightarrow> update_response io" where
  "update_document cfg doc_id req =
     bind (try_except (es_get (INDEX_NAME cfg) doc_id)
             (\<lambda>_. raise (HTTPException 404 Documento_no_encontrado))) (\<lambda>current.
     bind (case req_text req of
             Some t \<Rightarrow> return t
           | None \<Rightarrow> (case src_text current of
                        None \<Rightarrow> raise (KeyError ''text'')
                      | Some t \<Rightarrow> return t)) (\<lambda>new_text.
     let new_meta = (case req_metadatos req of
                       Some m \<Rightarrow> m
                     | None \<Rightarrow> (case src_meta current of None \<Rightarrow> [] | Some m \<Rightarrow> m)) in
     bind (embed cfg new_text) (\<lambda>new_vec.
     bind (es_index (INDEX_NAME cfg) doc_id
             \<lparr>src_text = Some new_text, src_meta = Some new_meta,
              src_embedding = Some new_vec\<rparr>) (\<lambda>_.
     bind (es_indices_refresh (INDEX_NAME cfg)) (\<lambda>_.
     return \<lparr>upd_id = doc_id, upd_text = new_text\<rparr>)))))"

subsection \<open>Search\<close>

text \<open>
  The list comprehension that closes each search endpoint: hits are taken in the order
  the store returned them; a hit whose source has no \<^verbatim>\<open>"text"\<close> raises.
\<close>

definition hit_result :: "hit \<Rightarrow> exn + search_result" where
  "hit_result h =
     (case src_text (hit_source h) of
        None \<Rightarrow> Inl (KeyError ''text'')
      | Some t \<Rightarrow>
          Inr \<lparr>res_id = hit_id h, res_text = t,
               res_meta = (case src_meta (hit_source h) of None \<Rightarrow> [] | Some m \<Rightarrow> m),
               res_score = hit_score h\<rparr>)"

fun hit_results :: "hit list \<Rightarrow> exn + search_result list" where
  "hit_results [] = Inr []"
| "hit_results (h # hs) =
     (case hit_result h of
        Inl e \<Rightarrow> Inl e
      | Inr r \<Rightarrow> (case hit_results hs of Inl e \<Rightarrow> Inl e | Inr rs \<Rightarrow> Inr (r # rs)))"

definition respond :: "string \<Rightarrow> hit list \<Rightarrow> search_response io" where
  "respond ty hs =
     (case hit_results hs of
        Inl e \<Rightarrow> raise e
      | Inr rs \<Rightarrow> return \<lparr>sr_type = ty, sr_results = rs\<rparr>)"

text \<open>\<^verbatim>\<open>search_lexical\<close>, lines 171-183.\<close>

definition search_lexical :: "config \<Rightarrow> SearchRequest \<Rightarrow> search_response io" where
  "search_lexical cfg req =
     bind (es_search (INDEX_NAME cfg)
             \<lparr>sb_size = top_k req, sb_query = Some (Match ''text'' (query req)),
              sb_knn = None\<rparr>)
       (respond ''lexical'')"

text \<open>\<^verbatim>\<open>search_semantic\<close>, lines 185-204.\<close>

definition search_semantic :: "config \<Rightarrow> SearchRequest \<Rightarrow> search_response io" where
  "search_semantic cfg req =
     bind (embed cfg (query req)) (\<lambda>qvec.
     bind (es_search (INDEX_NAME cfg)
             \<lparr>sb_size = top_k req, sb_query = None,
              sb_knn = Some \<lparr>knn_field = ''embedding'', knn_query_vector = qvec,
                             knn_k = top_k req,
                             knn_num_candidates = max (top_k req * 20) 100\<rparr>\<rparr>)
       (respond ''semantic''))"

text \<open>\<^verbatim>\<open>search_hybrid\<close>, lines 206-237.\<close>

definition search_hybrid :: "config \<Rightarrow> SearchRequest \<Rightarrow> search_response io" where
  "search_hybrid cfg req =
     bind (embed cfg (query req)) (\<lambda>qvec.
     bind (es_search (INDEX_NAME cfg)
             \<lparr>sb_size = top_k req,
              sb_query = Some (BoolShould [Match ''text'' (query req)]),
              sb_knn = Some \<lparr>knn_field = ''embedding'', knn_query_vector = qvec,
                             knn_k = top_k req,
                             knn_num_candidates = max (top_k req * 20) 100\<rparr>\<rparr>)
       (respond ''hybrid''))"

section \<open>Notions used in the statements\<close>

text \<open>
  None of the following is code of the service: they name what the theorems speak of.
\<close>

text \<open>The service's not-found failure: status 404 with its one message.\<close>

abbreviation NotFound :: exn where
  "NotFound \<equiv> HTTPException 404 Documento_no_encontrado"

text \<open>The document the store holds under an id, and the one searches see.\<close>

definition stored_doc :: "world \<Rightarrow> string \<Rightarrow> doc_id \<Rightarrow> source option" where
  "stored_doc w idx i = (case es_indices w idx of None \<Rightarrow> None | Some ix \<Rightarrow> map_of (ix_docs ix) i)"

definition visible_doc :: "world \<Rightarrow> string \<Rightarrow> doc_id \<Rightarrow> source option" where
  "visible_doc w idx i =
     (case es_indices w idx of None \<Rightarrow> None | Some ix \<Rightarrow> map_of (ix_searchable ix) i)"

text \<open>The dictionary \<^verbatim>\<open>{"text": t, "meta": m, "embedding": v}\<close>.\<close>

definition doc_of :: "string \<Rightarrow> metadata \<Rightarrow> vector \<Rightarrow> source" where
  "doc_of t m v = \<lparr>src_text = Some t, src_meta = Some m, src_embedding = Some v\<rparr>"

text \<open>
  What \<^verbatim>\<open>embed\<close> answers when the remote service has been called \<open>n\<close> times before,
  and the number of remote calls one \<^verbatim>\<open>embed\<close> makes: one under the external strategy
  with a credential, none otherwise.
\<close>

definition embed_at :: "config \<Rightarrow> world \<Rightarrow> nat \<Rightarrow> string \<Rightarrow> exn + vector" where
  "embed_at cfg w n text = fst (embed cfg text (w\<lparr>openai_calls := n\<rparr>))"

definition embed_calls :: "config \<Rightarrow> nat" where
  "embed_calls cfg =
     (if EMBEDDING_PROVIDER cfg = ''openai''
         \<and> py_strip (case OPENAI_API_KEY cfg of None \<Rightarrow> [] | Some k \<Rightarrow> k) \<noteq> []
      then 1 else 0)"

text \<open>
  The statements of \<^verbatim>\<open>update_document\<close> that follow the lookup (lines 158-169), as a
  function of the document found, and the document they write.
\<close>

definition update_rest :: "config \<Rightarrow> doc_id \<Rightarrow> UpdateRequest \<Rightarrow> source \<Rightarrow> update_response io" where
  "update_rest cfg doc_id req current =
     bind (case req_text req of
             Some t \<Rightarrow> return t
           | None \<Rightarrow> (case src_text current of
                        None \<Rightarrow> raise (KeyError ''text'')
                      | Some t \<Rightarrow> return t)) (\<lambda>new_text.
     let new_meta = (case req_metadatos req of
                       Some m \<Rightarrow> m
                     | None \<Rightarrow> (case src_meta current of None \<Rightarrow> [] | Some m \<Rightarrow> m)) in
     bind (embed cfg new_text) (\<lambda>new_vec.
     bind (es_index (INDEX_NAME cfg) doc_id
             \<lparr>src_text = Some new_text, src_meta = Some new_meta,
              src_embedding = Some new_vec\<rparr>) (\<lambda>_.
     bind (es_indices_refresh (INDEX_NAME cfg)) (\<lambda>_.
     return \<lparr>upd_id = doc_id, upd_text = new_text\<rparr>))))"

definition new_doc :: "UpdateRequest \<Rightarrow> source \<Rightarrow> string \<Rightarrow> vector \<Rightarrow> source" where
  "new_doc req cur new_text vec =
     \<lparr>src_text = Some new_text,
      src_meta = Some (case req_metadatos req of
                         Some m \<Rightarrow> m
                       | None \<Rightarrow> (case src_meta cur of None \<Rightarrow> [] | Some m \<Rightarrow> m)),
      src_embedding = Some vec\<rparr>"

section \<open>A sample configuration and sample worlds\<close>

text \<open>
  The SHA-256 digests of the three texts the examples use (\<open>hello world\<close>, the empty
  text and \<open>hola\<close>); every other text is given thirty-two zero bytes.
\<close>

definition demo_digest :: "string \<Rightarrow> 8 word list" where
  "demo_digest t =
     (if t = ''hello world'' then
        [0xB9, 0x4D, 0x27, 0xB9, 0x93, 0x4D, 0x3E, 0x08, 0xA5, 0x2E, 0x52, 0xD7, 0xDA, 0x7D,
         0xAB, 0xFA, 0xC4, 0x84, 0xEF, 0xE3, 0x7A, 0x53, 0x80, 0xEE, 0x90, 0x88, 0xF7, 0xAC,
         0xE2, 0xEF, 0xCD, 0xE9]
      else if t = [] then
        [0xE3, 0xB0, 0xC4, 0x42, 0x98, 0xFC, 0x1C, 0x14, 0x9A, 0xFB, 0xF4, 0xC8, 0x99, 0x6F,
         0xB9, 0x24, 0x27, 0xAE, 0x41, 0xE4, 0x64, 0x9B, 0x93, 0x4C, 0xA4, 0x95, 0x99, 0x1B,
         0x78, 0x52, 0xB8, 0x55]
      else if t = ''hola'' then
        [0xB2, 0x21, 0xD9, 0xDB, 0xB0, 0x83, 0xA7, 0xF3, 0x34, 0x28, 0xD7, 0xC2, 0xA3, 0xC3,
         0x19, 0x8A, 0xE9, 0x25, 0x61, 0x4D, 0x70, 0x21, 0x0E, 0x28, 0x71, 0x6C, 0xCA, 0xA7,
         0xCD, 0x4D, 0xDB, 0x79]
      else replicate 32 0)"

text \<open>
  The local strategy with two components, and the external one with the credential
  \<open>sk-demo\<close> (its code points) between whitespace of several kinds.
\<close>

definition demo_cfg :: config where
  "demo_cfg =
     \<lparr>ELASTIC_URL = ''http://localhost:9200'', INDEX_NAME = ''phrases_openai'',
      EMBEDDING_PROVIDER = ''fake'', EMBEDDING_DIM = 2, sha256 = demo_digest,
      OPENAI_API_KEY = None, OPENAI_EMBED_MODEL = None\<rparr>"

definition demo_key :: codepoints where
  "demo_key = [0x73, 0x6B, 0x2D, 0x64, 0x65, 0x6D, 0x6F]"

definition openai_cfg :: config where
  "openai_cfg =
     demo_cfg\<lparr>EMBEDDING_PROVIDER := ''openai'',
              OPENAI_API_KEY := Some ([0x1F, 0xA0] @ demo_key @ [0x3000, 0x20])\<rparr>"

definition demo_doc :: source where
  "demo_doc =
     \<lparr>src_text = Some ''hello world'', src_meta = Some [(''lang'', JStr ''en'')],
      src_embedding = Some [60761 / 100000, 819 / 100000]\<rparr>"

definition demo_doc2 :: source where
  "demo_doc2 =
     \<lparr>src_text = Some ''hola'', src_meta = None,
      src_embedding = Some [40242 / 100000, 41712 / 100000]\<rparr>"

text \<open>
  A reachable store holding two documents, an engine that scores a document by the length
  of its id, and an embedding service whose first answer has two components, whose second
  has one, and which fails afterwards.
\<close>

definition demo_world :: world where
  "demo_world =
     \<lparr>es_log = [],
      es_faults = (\<lambda>_. None),
      es_indices = (\<lambda>_. None)(''phrases_openai'' \<mapsto>
         \<lparr>ix_mapping = index_mapping demo_cfg,
          ix_docs = [(''a'', demo_doc), (''bb'', demo_doc2)],
          ix_searchable = [(''a'', demo_doc), (''bb'', demo_doc2)]\<rparr>),
      es_ranking = (\<lambda>_ i _. Some (of_nat (length i))),
      uuid_supply = (\<lambda>n. ''uuid-'' @ replicate (Suc n) CHR ''1''),
      uuid_calls = 0,
      openai_service = (\<lambda>n _ _ _. if n = 0 then Inr [1 / 2, 1 / 4] else if n = 1 then Inr [1 / 2]
                                     else Inl ''timeout''),
      openai_calls = 0\<rparr>"

text \<open>
  The same world with the store unreachable at every request, with no collection at all,
  and with a time-out at its third request.
\<close>

definition unreachable_world :: world where
  "unreachable_world = demo_world\<lparr>es_faults := (\<lambda>_. Some ConnectionError)\<rparr>"

definition no_schema_world :: world where
  "no_schema_world = demo_world\<lparr>es_indices := (\<lambda>_. None)\<rparr>"

definition flaky_world :: world where
  "flaky_world = demo_world\<lparr>es_faults := (\<lambda>n. if n = 2 then Some ConnectionTimeout else None)\<rparr>"

section \<open>Properties\<close>

subsection \<open>The local embedding\<close>

lemma length_bytes_repeat: "length (bytes_repeat h k) = nat k * length h"
  by (simp add: bytes_repeat_def length_concat sum_list_replicate)

lemma nth_concat_replicate:
  "p < n * length h \<Longrightarrow> concat (replicate n h) ! p = h ! (p mod length h)"
proof (induction n arbitrary: p)
  case 0
  then show ?case by simp
next
  case (Suc n)
  show ?case
  proof (cases "p < length h")
    case True
    then show ?thesis by (simp add: nth_append)
  next
    case False
    then have "p - length h < n * length h" using Suc.prems by simp
    from Suc.IH [OF this] False show ?thesis
      by (simp add: nth_append le_mod_geq)
  qed
qed

lemma nth_bytes_repeat:
  "p < nat k * length h \<Longrightarrow> bytes_repeat h k ! p = spec_stream_byte h p"
  by (simp add: bytes_repeat_def spec_stream_byte_def nth_concat_replicate)

lemma stretch_covers:
  assumes "h \<noteq> []" and True: "0 \<le> D"
  shows "4 * nat D < nat (D * 4 div int (length h) + 1) * length h"
proof -
  define L where "L = int (length h)"
  have Lpos: "0 < L" using assms by (simp add: L_def)
  have q: "0 \<le> D * 4 div L" using True Lpos by (simp add: pos_imp_zdiv_nonneg_iff)
  define q r where "q = D * 4 div L" and "r = D * 4 mod L"
  have "D * 4 = L * q + r" by (simp add: q_def r_def)
  moreover have "r < L" using Lpos by (simp add: r_def)
  moreover have "L * (q + 1) = L * q + L" by (simp add: algebra_simps)
  ultimately have "D * 4 < L * (D * 4 div L + 1)" unfolding q_def by linarith
  then have "int (4 * nat D) < int (nat (D * 4 div L + 1) * length h)"
    using True q by (simp add: L_def algebra_simps)
  then show ?thesis unfolding L_def by linarith
qed

lemma py_slice_four:
  assumes "4 * i + 3 < length b"
  shows "py_slice b (i * 4) ((i + 1) * 4) = [b ! (4 * i), b ! (4 * i + 1), b ! (4 * i + 2), b ! (4 * i + 3)]"
proof -
  have "take 4 (drop (4 * i) b) = map (\<lambda>j. b ! (4 * i + j)) [0 ..< 4]"
    using assms by (intro nth_equalityI) (simp_all)
  then show ?thesis
    by (simp add: py_slice_def mult.commute upt_rec eval_nat_numeral)
qed

lemma fake_component:
  assumes "h \<noteq> []" and "i < nat D"
  shows "from_bytes_little (py_slice (bytes_repeat h (D * 4 div int (length h) + 1)) (i * 4) ((i + 1) * 4))
         = uint (spec_stream_byte h (4 * i))
              + 256 * uint (spec_stream_byte h (4 * i + 1))
              + 65536 * uint (spec_stream_byte h (4 * i + 2))
              + 16777216 * uint (spec_stream_byte h (4 * i + 3))"
proof -
  let ?k = "D * 4 div int (length h) + 1"
  have D: "0 \<le> D" using assms(2) by simp
  have cover: "4 * nat D < nat ?k * length h"
    by (rule stretch_covers [OF assms(1) D])
  have lt: "4 * i + 3 < nat ?k * length h" using assms(2) cover by simp
  then have len: "4 * i + 3 < length (bytes_repeat h ?k)"
    by (simp add: length_bytes_repeat)
  have nth: "\<And>j. j \<le> 3 \<Longrightarrow> bytes_repeat h ?k ! (4 * i + j) = spec_stream_byte h (4 * i + j)"
    using lt by (intro nth_bytes_repeat) simp
  show ?thesis
    using nth [of 0] nth [of 1] nth [of 2] nth [of 3]
    by (subst py_slice_four [OF len]) simp
qed

text \<open>
  Claim C2. For every text \<open>t\<close> with a non-empty digest (a SHA-256 digest has 32 bytes)
  and every dimension \<open>D\<close>, \<^verbatim>\<open>fake_embed\<close> returns the vector of the reference
  function: component \<open>i\<close> is the little-endian unsigned number in bytes
  \<open>4 i .. 4 i + 3\<close> of the repeated digest, modulo 100000, over 100000. The repeated
  digest has at least \<open>4 D\<close> bytes, every component lies in \<open>[0, 1)\<close>, and the vector
  depends on the text through its digest only, so equal texts give equal vectors.
\<close>

theorem fake_embed_is_spec:
  assumes "sha256 cfg t \<noteq> []"
  shows "fake_embed cfg t = Inr (spec_local_embed (sha256 cfg t) (EMBEDDING_DIM cfg))
       \<and> EMBEDDING_DIM cfg * 4 \<le> int (length (bytes_repeat (sha256 cfg t)
              (EMBEDDING_DIM cfg * 4 div int (length (sha256 cfg t)) + 1)))
       \<and> (\<forall>x \<in> set (spec_local_embed (sha256 cfg t) (EMBEDDING_DIM cfg)). 0 \<le> x \<and> x < 1)
       \<and> (\<forall>t'. sha256 cfg t' = sha256 cfg t \<longrightarrow> fake_embed cfg t' = fake_embed cfg t)"
proof (intro conjI)
  show "fake_embed cfg t = Inr (spec_local_embed (sha256 cfg t) (EMBEDDING_DIM cfg))"
  proof -
    have "map (\<lambda>i. (of_int (from_bytes_little
              (py_slice (bytes_repeat (sha256 cfg t)
                 (EMBEDDING_DIM cfg * 4 div int (length (sha256 cfg t)) + 1))
                 (i * 4) ((i + 1) * 4)) mod 100000) :: rat) / 100000)
            [0 ..< nat (EMBEDDING_DIM cfg)]
          = map (spec_component (sha256 cfg t)) [0 ..< nat (EMBEDDING_DIM cfg)]"
      by (rule map_cong [OF refl])
         (simp only: fake_component [OF assms] spec_component_def atLeastLessThan_iff set_upt)
    then show ?thesis
      using assms
      by (simp only: fake_embed_def spec_local_embed_def py_range_def Let_def
          length_0_conv if_False)
  qed
next
  show "EMBEDDING_DIM cfg * 4 \<le> int (length (bytes_repeat (sha256 cfg t)
              (EMBEDDING_DIM cfg * 4 div int (length (sha256 cfg t)) + 1)))"
  proof (cases "0 \<le> EMBEDDING_DIM cfg")
    case True
    have "int (4 * nat (EMBEDDING_DIM cfg)) < int (length (bytes_repeat (sha256 cfg t)
              (EMBEDDING_DIM cfg * 4 div int (length (sha256 cfg t)) + 1)))"
      using stretch_covers [OF assms True]
      by (simp only: length_bytes_repeat of_nat_less_iff)
    moreover have "int (4 * nat (EMBEDDING_DIM cfg)) = EMBEDDING_DIM cfg * 4"
      using True by simp
    ultimately show ?thesis by linarith
  next
    case False
    then show ?thesis by linarith
  qed
next
  show "\<forall>x \<in> set (spec_local_embed (sha256 cfg t) (EMBEDDING_DIM cfg)). 0 \<le> x \<and> x < 1"
  proof
    fix x assume "x \<in> set (spec_local_embed (sha256 cfg t) (EMBEDDING_DIM cfg))"
    then obtain n :: int where x: "x = of_int (n mod 100000) / 100000"
      by (auto simp: spec_local_embed_def spec_component_def)
    have "0 \<le> n mod 100000" "n mod 100000 < 100000" by simp_all
    then have "(0::rat) \<le> of_int (n mod 100000)" "(of_int (n mod 100000) :: rat) < 100000"
      by (simp_all del: of_int_less_numeral_iff add: of_int_less_numeral_iff [symmetric])
    then show "0 \<le> x \<and> x < 1" by (simp add: x)
  qed
next
  show "\<forall>t'. sha256 cfg t' = sha256 cfg t \<longrightarrow> fake_embed cfg t' = fake_embed cfg t"
    by (simp add: fake_embed_def)
qed

subsection \<open>Computations and store requests\<close>

lemma bind_Inr: "m w = (Inr x, w1) \<Longrightarrow> bind m f w = f x w1"
  by (simp add: bind_def)

lemma bind_Inl: "m w = (Inl e, w1) \<Longrightarrow> bind m f w = (Inl e, w1)"
  by (simp add: bind_def)

lemma bind_Inr_iff:
  "bind m f w = (Inr y, w') \<longleftrightarrow> (\<exists>x w1. m w = (Inr x, w1) \<and> f x w1 = (Inr y, w'))"
  by (cases "m w"; cases "fst (m w)") (auto simp: bind_def)

lemma bind_Inl_iff:
  "bind m f w = (Inl e, w') \<longleftrightarrow>
     (m w = (Inl e, w') \<or> (\<exists>x w1. m w = (Inr x, w1) \<and> f x w1 = (Inl e, w')))"
  by (cases "m w"; cases "fst (m w)") (auto simp: bind_def)

lemma try_except_Inr: "m w = (Inr x, w1) \<Longrightarrow> try_except m h w = (Inr x, w1)"
  by (simp add: try_except_def)

lemma try_except_Inl: "m w = (Inl e, w1) \<Longrightarrow> try_except m h w = h e w1"
  by (simp add: try_except_def)

lemma es_send_fault:
  "es_faults w (length (es_log w)) = Some e \<Longrightarrow>
   es_send req serve w = (Inl (EsException e), w\<lparr>es_log := es_log w @ [req]\<rparr>)"
  by (simp add: es_send_def)

lemma es_send_ok:
  "es_faults w (length (es_log w)) = None \<Longrightarrow>
   es_send req serve w = serve (w\<lparr>es_log := es_log w @ [req]\<rparr>)"
  by (simp add: es_send_def)

lemma es_delete_Inr_iff:
  "es_delete idx i w = (Inr u, w1) \<longleftrightarrow>
     (es_faults w (length (es_log w)) = None \<and> (\<exists>ix d. es_indices w idx = Some ix \<and> map_of (ix_docs ix) i = Some d
        \<and> w1 = w\<lparr>es_log := es_log w @ [Delete idx i],
                  es_indices := (es_indices w)(idx \<mapsto> ix\<lparr>ix_docs := AList.delete i (ix_docs ix)\<rparr>)\<rparr>))"
  by (cases "es_faults w (length (es_log w))")
     (auto simp: es_delete_def es_send_def Let_def split: option.splits)

lemma es_get_Inr_iff:
  "es_get idx i w = (Inr d, w1) \<longleftrightarrow>
     (es_faults w (length (es_log w)) = None \<and> stored_doc w idx i = Some d
        \<and> w1 = w\<lparr>es_log := es_log w @ [Get idx i]\<rparr>)"
  by (cases "es_faults w (length (es_log w))")
     (auto simp: es_get_def es_send_def stored_doc_def Let_def split: option.splits)

lemma es_index_Inr_iff:
  "es_index idx i doc w = (Inr u, w1) \<longleftrightarrow>
     (es_faults w (length (es_log w)) = None \<and>
      w1 = w\<lparr>es_log := es_log w @ [Index idx i doc],
             es_indices := (es_indices w)(idx \<mapsto>
               (case es_indices w idx of
                  None \<Rightarrow> \<lparr>ix_mapping = [], ix_docs = [], ix_searchable = []\<rparr>
                | Some ix \<Rightarrow> ix)
               \<lparr>ix_docs := AList.update i doc (ix_docs (case es_indices w idx of
                  None \<Rightarrow> \<lparr>ix_mapping = [], ix_docs = [], ix_searchable = []\<rparr>
                | Some ix \<Rightarrow> ix))\<rparr>)\<rparr>)"
  by (cases "es_faults w (length (es_log w))")
     (auto simp: es_index_def es_send_def Let_def)

lemma es_indices_refresh_Inr_iff:
  "es_indices_refresh idx w = (Inr u, w1) \<longleftrightarrow>
     (es_faults w (length (es_log w)) = None \<and> (\<exists>ix. es_indices w idx = Some ix
        \<and> w1 = w\<lparr>es_log := es_log w @ [IndicesRefresh idx],
                  es_indices := (es_indices w)(idx \<mapsto> ix\<lparr>ix_searchable := ix_docs ix\<rparr>)\<rparr>))"
  by (cases "es_faults w (length (es_log w))")
     (auto simp: es_indices_refresh_def es_send_def Let_def split: option.splits)

lemma es_send_raises:
  assumes "es_send req serve w = (Inl e, w1)"
    and "\<And>w0 w0'. serve w0 = (Inl e, w0') \<Longrightarrow> \<exists>x. e = EsException x"
  shows "\<exists>x. e = EsException x"
  using assms by (auto simp: es_send_def Let_def split: option.splits)

lemma es_index_raises: "es_index idx i doc w = (Inl e, w1) \<Longrightarrow> \<exists>x. e = EsException x"
  by (auto simp: es_index_def es_send_def Let_def split: option.splits)

lemma es_indices_refresh_raises: "es_indices_refresh idx w = (Inl e, w1) \<Longrightarrow> \<exists>x. e = EsException x"
  by (auto simp: es_indices_refresh_def es_send_def Let_def split: option.splits)

lemma embed_raises: "embed cfg t w = (Inl e, w1) \<Longrightarrow> e \<noteq> NotFound"
  by (auto simp: embed_def openai_embed_def fake_embed_def Let_def split: if_splits sum.splits)

subsection \<open>Delete and update\<close>

lemma delete_document_not_found:
  assumes "es_faults w (length (es_log w)) \<noteq> None \<or> stored_doc w (INDEX_NAME cfg) i = None"
  shows "delete_document cfg i w =
           (Inl NotFound, w\<lparr>es_log := es_log w @ [Delete (INDEX_NAME cfg) i]\<rparr>)"
  using assms
  by (auto simp: delete_document_def bind_def try_except_def raise_def es_delete_def
      es_send_def stored_doc_def Let_def split: option.splits)

lemma delete_document_found:
  assumes "es_faults w (length (es_log w)) = None"
    and "es_indices w (INDEX_NAME cfg) = Some ix" and "map_of (ix_docs ix) i = Some d"
  shows "delete_document cfg i w =
           bind (es_indices_refresh (INDEX_NAME cfg)) (\<lambda>_. return i)
             (w\<lparr>es_log := es_log w @ [Delete (INDEX_NAME cfg) i],
                es_indices := (es_indices w)
                  (INDEX_NAME cfg \<mapsto> ix\<lparr>ix_docs := AList.delete i (ix_docs ix)\<rparr>)\<rparr>)"
  using assms
  by (simp add: delete_document_def bind_def try_except_def es_delete_def es_send_def Let_def)

lemma refresh_then_return_raises:
  "bind (es_indices_refresh idx) (\<lambda>_. return x) w = (Inl e, w') \<Longrightarrow> \<exists>x. e = EsException x"
  by (auto simp: bind_Inl_iff return_def dest: es_indices_refresh_raises)

lemma update_document_not_found:
  assumes "es_faults w (length (es_log w)) \<noteq> None \<or> stored_doc w (INDEX_NAME cfg) i = None"
  shows "update_document cfg i req w =
           (Inl NotFound, w\<lparr>es_log := es_log w @ [Get (INDEX_NAME cfg) i]\<rparr>)"
  using assms
  by (auto simp: update_document_def bind_def try_except_def raise_def es_get_def
      es_send_def stored_doc_def Let_def split: option.splits)

lemma update_document_found:
  assumes "es_faults w (length (es_log w)) = None"
    and "stored_doc w (INDEX_NAME cfg) i = Some cur"
  shows "update_document cfg i req w =
           update_rest cfg i req cur (w\<lparr>es_log := es_log w @ [Get (INDEX_NAME cfg) i]\<rparr>)"
proof -
  have "es_get (INDEX_NAME cfg) i w = (Inr cur, w\<lparr>es_log := es_log w @ [Get (INDEX_NAME cfg) i]\<rparr>)"
    using assms by (simp add: es_get_Inr_iff)
  then show ?thesis
    by (simp add: update_document_def update_rest_def bind_Inr try_except_Inr)
qed

lemma resolve_text_raises:
  "(case rt of
      Some t \<Rightarrow> return t
    | None \<Rightarrow> (case ct of None \<Rightarrow> raise (KeyError ''text'') | Some t \<Rightarrow> return t)) w
     = (Inl e, w1) \<Longrightarrow> e = KeyError ''text''"
  by (auto simp: return_def raise_def split: option.splits)

lemma update_rest_raises:
  assumes "update_rest cfg i req cur w = (Inl e, w')"
  shows "e \<noteq> NotFound"
  using assms unfolding update_rest_def Let_def bind_Inl_iff
  by (auto simp: return_def
      dest: resolve_text_raises embed_raises es_index_raises es_indices_refresh_raises)

lemma embed_eq:
  "embed cfg t w =
     (embed_at cfg w (openai_calls w) t, w\<lparr>openai_calls := openai_calls w + embed_calls cfg\<rparr>)"
  by (simp add: embed_def embed_at_def embed_calls_def openai_embed_def Let_def
      split: sum.splits)

lemma embed_at_frame:
  "openai_service w' = openai_service w \<Longrightarrow> embed_at cfg w' n t = embed_at cfg w n t"
  by (simp add: embed_at_def embed_def openai_embed_def Let_def split: sum.splits)

lemma update_rest_Inr_iff:
  assumes ix: "es_indices w (INDEX_NAME cfg) = Some ix"
  shows "update_rest cfg i req cur w = (Inr resp, w') \<longleftrightarrow>
     (\<exists>new_text vec.
        (req_text req = Some new_text \<or> req_text req = None \<and> src_text cur = Some new_text)
      \<and> embed_at cfg w (openai_calls w) new_text = Inr vec
      \<and> es_faults w (length (es_log w)) = None
      \<and> es_faults w (Suc (length (es_log w))) = None
      \<and> resp = \<lparr>upd_id = i, upd_text = new_text\<rparr>
      \<and> w' = w\<lparr>es_log := es_log w @ [Index (INDEX_NAME cfg) i (new_doc req cur new_text vec),
                                       IndicesRefresh (INDEX_NAME cfg)],
                es_indices := (es_indices w)(INDEX_NAME cfg \<mapsto>
                   ix\<lparr>ix_docs := AList.update i (new_doc req cur new_text vec) (ix_docs ix),
                      ix_searchable := AList.update i (new_doc req cur new_text vec) (ix_docs ix)\<rparr>),
                openai_calls := openai_calls w + embed_calls cfg\<rparr>)"
  unfolding update_rest_def Let_def bind_Inr_iff es_index_Inr_iff es_indices_refresh_Inr_iff embed_eq
  using ix
  by (auto simp: return_def raise_def new_doc_def split: option.splits)

lemma update_document_Inr_iff:
  "update_document cfg i req w = (Inr resp, w') \<longleftrightarrow>
     (\<exists>ix cur new_text vec.
        es_indices w (INDEX_NAME cfg) = Some ix \<and> map_of (ix_docs ix) i = Some cur
      \<and> (req_text req = Some new_text \<or> req_text req = None \<and> src_text cur = Some new_text)
      \<and> embed_at cfg w (openai_calls w) new_text = Inr vec
      \<and> es_faults w (length (es_log w)) = None
      \<and> es_faults w (Suc (length (es_log w))) = None
      \<and> es_faults w (Suc (Suc (length (es_log w)))) = None
      \<and> resp = \<lparr>upd_id = i, upd_text = new_text\<rparr>
      \<and> w' = w\<lparr>es_log := es_log w @ [Get (INDEX_NAME cfg) i,
                                       Index (INDEX_NAME cfg) i (new_doc req cur new_text vec),
                                       IndicesRefresh (INDEX_NAME cfg)],
                es_indices := (es_indices w)(INDEX_NAME cfg \<mapsto>
                   ix\<lparr>ix_docs := AList.update i (new_doc req cur new_text vec) (ix_docs ix),
                      ix_searchable := AList.update i (new_doc req cur new_text vec) (ix_docs ix)\<rparr>),
                openai_calls := openai_calls w + embed_calls cfg\<rparr>)"
proof (cases "es_faults w (length (es_log w)) \<noteq> None \<or> stored_doc w (INDEX_NAME cfg) i = None")
  case True
  then show ?thesis
    by (auto simp: update_document_not_found stored_doc_def)
next
  case False
  then obtain ix cur where f: "es_faults w (length (es_log w)) = None"
    and ix: "es_indices w (INDEX_NAME cfg) = Some ix" and cur: "map_of (ix_docs ix) i = Some cur"
    by (auto simp: stored_doc_def split: option.splits)
  have st: "stored_doc w (INDEX_NAME cfg) i = Some cur"
    using ix cur by (simp add: stored_doc_def)
  let ?w1 = "w\<lparr>es_log := es_log w @ [Get (INDEX_NAME cfg) i]\<rparr>"
  have ix1: "es_indices ?w1 (INDEX_NAME cfg) = Some ix" using ix by simp
  have emb: "\<And>n t. embed_at cfg ?w1 n t = embed_at cfg w n t"
    by (rule embed_at_frame) simp
  show ?thesis
    unfolding update_document_found [OF f st] update_rest_Inr_iff [OF ix1] emb
    using f ix cur by auto
qed

text \<open>
  Claim C4. A successful update that supplies metadata but no text finds a stored
  document with some text \<open>t\<close>, and leaves under the same id the document with text
  \<open>t\<close> unchanged, the supplied metadata, and the vector that \<^verbatim>\<open>embed\<close> answers for
  \<open>t\<close> at this call: the embedding is computed again (one more remote call under the
  external strategy), written by the one upsert request, and visible to searches.
\<close>

theorem update_metadata_only:
  assumes "update_document cfg i req w = (Inr resp, w')"
    and "req_text req = None" and "req_metadatos req = Some m"
  shows "\<exists>cur t vec.
           stored_doc w (INDEX_NAME cfg) i = Some cur \<and> src_text cur = Some t
         \<and> embed_at cfg w (openai_calls w) t = Inr vec
         \<and> stored_doc w' (INDEX_NAME cfg) i
             = Some \<lparr>src_text = Some t, src_meta = Some m, src_embedding = Some vec\<rparr>
         \<and> visible_doc w' (INDEX_NAME cfg) i
             = Some \<lparr>src_text = Some t, src_meta = Some m, src_embedding = Some vec\<rparr>
         \<and> upd_text resp = t
         \<and> openai_calls w' = openai_calls w + embed_calls cfg
         \<and> es_log w' = es_log w @
              [Get (INDEX_NAME cfg) i,
               Index (INDEX_NAME cfg) i
                 \<lparr>src_text = Some t, src_meta = Some m, src_embedding = Some vec\<rparr>,
               IndicesRefresh (INDEX_NAME cfg)]"
  using assms unfolding update_document_Inr_iff
  by (auto simp: stored_doc_def visible_doc_def new_doc_def update_conv')

text \<open>
  Claim C10. \<^verbatim>\<open>update_document\<close> tests the supplied text and metadata against
  \<^verbatim>\<open>None\<close>, not for truth: a successful update with the empty text stores the empty
  text and the vector \<^verbatim>\<open>embed\<close> answers for the empty text; one with the empty
  dictionary stores the empty dictionary. The same holds of any supplied value.
\<close>

theorem update_by_presence:
  assumes "update_document cfg i req w = (Inr resp, w')"
  shows "(req_text req = Some [] \<longrightarrow>
            (\<exists>vec d. embed_at cfg w (openai_calls w) [] = Inr vec
               \<and> stored_doc w' (INDEX_NAME cfg) i = Some d
               \<and> src_text d = Some [] \<and> src_embedding d = Some vec \<and> upd_text resp = []))
       \<and> (req_metadatos req = Some [] \<longrightarrow>
            (\<exists>d. stored_doc w' (INDEX_NAME cfg) i = Some d \<and> src_meta d = Some []))
       \<and> (\<forall>t. req_text req = Some t \<longrightarrow>
            (\<exists>vec d. embed_at cfg w (openai_calls w) t = Inr vec
               \<and> stored_doc w' (INDEX_NAME cfg) i = Some d
               \<and> src_text d = Some t \<and> src_embedding d = Some vec \<and> upd_text resp = t))
       \<and> (\<forall>m. req_metadatos req = Some m \<longrightarrow>
            (\<exists>d. stored_doc w' (INDEX_NAME cfg) i = Some d \<and> src_meta d = Some m))"
  using assms unfolding update_document_Inr_iff
  by (auto simp: stored_doc_def new_doc_def update_conv')

subsection \<open>Search\<close>

lemma es_search_snd:
  "snd (es_search idx body w) = w\<lparr>es_log := es_log w @ [Search idx body]\<rparr>"
  by (simp add: es_search_def es_send_def Let_def split: option.splits)

lemma es_search_Inr_iff:
  "es_search idx body w = (Inr hs, w1) \<longleftrightarrow>
     (es_faults w (length (es_log w)) = None \<and> w1 = w\<lparr>es_log := es_log w @ [Search idx body]\<rparr>
      \<and> (\<exists>ix. es_indices w idx = Some ix \<and> hs = ranked_hits (es_ranking w) body (ix_searchable ix)))"
  by (cases "es_faults w (length (es_log w))")
     (auto simp: es_search_def es_send_def Let_def split: option.splits)

lemma respond_snd: "snd (respond ty hs w) = w"
  by (simp add: respond_def return_def raise_def split: sum.splits)

lemma respond_fst:
  "fst (respond ty hs w) =
     (case hit_results hs of Inl e \<Rightarrow> Inl e | Inr rs \<Rightarrow> Inr \<lparr>sr_type = ty, sr_results = rs\<rparr>)"
  by (simp add: respond_def return_def raise_def split: sum.splits)

lemma search_then_respond_snd:
  "snd (bind (es_search idx body) (respond ty) w) = w\<lparr>es_log := es_log w @ [Search idx body]\<rparr>"
proof (cases "es_search idx body w")
  case (Pair r w1)
  then have w1: "w1 = w\<lparr>es_log := es_log w @ [Search idx body]\<rparr>"
    using es_search_snd [of idx body w] by simp
  show ?thesis
    using Pair w1 by (cases r) (simp_all add: bind_def respond_snd)
qed

lemma respond_Inr_iff:
  "respond ty hs w = (Inr resp, w') \<longleftrightarrow>
     (\<exists>rs. hit_results hs = Inr rs \<and> resp = \<lparr>sr_type = ty, sr_results = rs\<rparr> \<and> w' = w)"
  by (cases "hit_results hs") (auto simp: respond_def return_def raise_def)

lemma search_then_respond_Inr_iff:
  "bind (es_search idx body) (respond ty) w = (Inr resp, w') \<longleftrightarrow>
     (\<exists>hs rs. es_search idx body w = (Inr hs, w') \<and> hit_results hs = Inr rs
        \<and> resp = \<lparr>sr_type = ty, sr_results = rs\<rparr>)"
  by (auto simp: bind_Inr_iff respond_Inr_iff)

lemma hit_results_Inr:
  "hit_results hs = Inr rs \<Longrightarrow>
     map res_id rs = map hit_id hs \<and> map res_score rs = map hit_score hs"
proof (induction hs arbitrary: rs)
  case Nil
  then show ?case by simp
next
  case (Cons h hs)
  then show ?case
    by (auto simp: hit_result_def split: sum.splits option.splits)
qed

lemma ranked_hits_length: "length (ranked_hits rank body docs) \<le> nat (sb_size body)"
  by (simp add: ranked_hits_def)

lemma ranked_hits_sorted:
  "sorted_wrt (\<lambda>a b. hit_score b \<le> hit_score a) (ranked_hits rank body docs)"
proof -
  have "sorted (map (\<lambda>h. - hit_score h) (sort_key (\<lambda>h. - hit_score h) xs))" for xs :: "hit list"
    by (rule sorted_sort_key)
  then have "sorted_wrt (\<lambda>a b. hit_score b \<le> hit_score a) (sort_key (\<lambda>h. - hit_score h) xs)"
    for xs :: "hit list"
    by (simp add: sorted_map)
  then show ?thesis
    unfolding ranked_hits_def by (rule sorted_wrt_take)
qed

text \<open>
  Claim C8. \<^verbatim>\<open>search_semantic\<close> embeds the query and then sends one search request
  with the query vector, \<open>k = top_k\<close> and a candidate pool of \<open>max (top_k * 20) 100\<close>;
  when it returns, it returns at most \<open>top_k\<close> results in descending order of score.
\<close>

theorem search_semantic_request:
  assumes "embed cfg (query req) w = (Inr qvec, w1)"
  shows "es_log (snd (search_semantic cfg req w)) = es_log w @
           [Search (INDEX_NAME cfg)
              \<lparr>sb_size = top_k req, sb_query = None,
               sb_knn = Some \<lparr>knn_field = ''embedding'', knn_query_vector = qvec,
                              knn_k = top_k req,
                              knn_num_candidates = max (top_k req * 20) 100\<rparr>\<rparr>]
       \<and> (\<forall>resp w'. search_semantic cfg req w = (Inr resp, w') \<longrightarrow>
             length (sr_results resp) \<le> nat (top_k req)
           \<and> sorted_wrt (\<lambda>a b. res_score b \<le> res_score a) (sr_results resp))"
proof (intro conjI allI impI)
  show "es_log (snd (search_semantic cfg req w)) = es_log w @
           [Search (INDEX_NAME cfg)
              \<lparr>sb_size = top_k req, sb_query = None,
               sb_knn = Some \<lparr>knn_field = ''embedding'', knn_query_vector = qvec,
                              knn_k = top_k req,
                              knn_num_candidates = max (top_k req * 20) 100\<rparr>\<rparr>]"
  proof -
    have "es_log w1 = es_log w" using assms by (auto simp: embed_eq)
    then show ?thesis
      by (simp add: search_semantic_def bind_Inr [where m = "embed cfg (query req)", OF assms]
          search_then_respond_snd)
  qed
next
  fix resp w' assume ok: "search_semantic cfg req w = (Inr resp, w')"
  then obtain hs rs body where hs: "es_search (INDEX_NAME cfg) body w1 = (Inr hs, w')"
    and body: "sb_size body = top_k req"
    and rs: "hit_results hs = Inr rs" and resp: "sr_results resp = rs"
    unfolding search_semantic_def bind_Inr [where m = "embed cfg (query req)", OF assms] search_then_respond_Inr_iff
    by auto
  from hs obtain docs where hs_eq: "hs = ranked_hits (es_ranking w1) body docs"
    by (auto simp: es_search_Inr_iff)
  have len: "length rs = length hs"
    using hit_results_Inr [OF rs] by (metis length_map)
  have "length hs \<le> nat (top_k req)"
    unfolding hs_eq using ranked_hits_length [of "es_ranking w1" body docs] body by simp
  then show "length (sr_results resp) \<le> nat (top_k req)"
    using len resp by simp
  have "sorted_wrt (\<lambda>a b. hit_score b \<le> hit_score a) hs"
    unfolding hs_eq by (rule ranked_hits_sorted)
  then have "sorted_wrt (\<lambda>x y. y \<le> x) (map hit_score hs)"
    by (simp add: sorted_wrt_map)
  then have "sorted_wrt (\<lambda>x y. y \<le> x) (map res_score rs)"
    using hit_results_Inr [OF rs] by simp
  then show "sorted_wrt (\<lambda>a b. res_score b \<le> res_score a) (sr_results resp)"
    unfolding resp by (simp add: sorted_wrt_map)
qed

subsection \<open>Failures after the lookup\<close>

lemma delete_later_failure:
  assumes "es_faults w (length (es_log w)) = None"
    and "stored_doc w (INDEX_NAME cfg) i \<noteq> None"
    and "es_faults w (Suc (length (es_log w))) = Some e"
  shows "fst (delete_document cfg i w) = Inl (EsException e)"
proof -
  from assms(2) obtain ix d where ix: "es_indices w (INDEX_NAME cfg) = Some ix"
    and d: "map_of (ix_docs ix) i = Some d"
    by (auto simp: stored_doc_def split: option.splits)
  show ?thesis
    unfolding delete_document_found [OF assms(1) ix d]
    using assms(3) by (simp add: bind_def es_indices_refresh_def es_send_fault)
qed

lemma update_later_failure:
  assumes "es_faults w (length (es_log w)) = None"
    and "stored_doc w (INDEX_NAME cfg) i = Some cur"
    and "req_text req = Some t \<or> req_text req = None \<and> src_text cur = Some t"
    and "embed_at cfg w (openai_calls w) t = Inr vec"
    and "es_faults w (Suc (length (es_log w))) = Some e"
  shows "fst (update_document cfg i req w) = Inl (EsException e)"
proof -
  let ?w1 = "w\<lparr>es_log := es_log w @ [Get (INDEX_NAME cfg) i]\<rparr>"
  have emb: "embed_at cfg ?w1 (openai_calls w) t = Inr vec"
    using assms(4) embed_at_frame [of ?w1 w cfg] by simp
  show ?thesis
    unfolding update_document_found [OF assms(1,2)] update_rest_def
    using assms(3,5) emb
    by (auto simp: bind_def return_def embed_eq es_index_def es_send_fault Let_def)
qed

lemma update_refresh_failure:
  assumes "es_faults w (length (es_log w)) = None"
    and "stored_doc w (INDEX_NAME cfg) i = Some cur"
    and "req_text req = Some t \<or> req_text req = None \<and> src_text cur = Some t"
    and "embed_at cfg w (openai_calls w) t = Inr vec"
    and "es_faults w (Suc (length (es_log w))) = None"
    and "es_faults w (Suc (Suc (length (es_log w)))) = Some e"
  shows "fst (update_document cfg i req w) = Inl (EsException e)"
proof -
  let ?w1 = "w\<lparr>es_log := es_log w @ [Get (INDEX_NAME cfg) i]\<rparr>"
  have emb: "embed_at cfg ?w1 (openai_calls w) t = Inr vec"
    using assms(4) embed_at_frame [of ?w1 w cfg] by simp
  show ?thesis
    unfolding update_document_found [OF assms(1,2)] update_rest_def
    using assms(3,5,6) emb
    by (auto simp: bind_def return_def embed_eq es_index_def es_indices_refresh_def
        es_send_def Let_def)
qed

lemma not_found_iff:
  "(fst (delete_document cfg i w) = Inl NotFound \<longleftrightarrow>
      (stored_doc w (INDEX_NAME cfg) i = None \<or> es_faults w (length (es_log w)) \<noteq> None))
   \<and> (fst (update_document cfg i req w) = Inl NotFound \<longleftrightarrow>
      (stored_doc w (INDEX_NAME cfg) i = None \<or> es_faults w (length (es_log w)) \<noteq> None))"
proof (intro conjI)
  show "fst (delete_document cfg i w) = Inl NotFound \<longleftrightarrow>
      (stored_doc w (INDEX_NAME cfg) i = None \<or> es_faults w (length (es_log w)) \<noteq> None)"
  proof (cases "es_faults w (length (es_log w)) \<noteq> None \<or> stored_doc w (INDEX_NAME cfg) i = None")
    case True
    then show ?thesis by (auto simp: delete_document_not_found)
  next
    case False
    then obtain ix d where f: "es_faults w (length (es_log w)) = None"
      and ix: "es_indices w (INDEX_NAME cfg) = Some ix" and d: "map_of (ix_docs ix) i = Some d"
      by (auto simp: stored_doc_def split: option.splits)
    have "fst (delete_document cfg i w) \<noteq> Inl NotFound"
      unfolding delete_document_found [OF f ix d]
      by (metis refresh_then_return_raises exn.distinct(7) prod.collapse)
    then show ?thesis using False by simp
  qed
next
  show "fst (update_document cfg i req w) = Inl NotFound \<longleftrightarrow>
      (stored_doc w (INDEX_NAME cfg) i = None \<or> es_faults w (length (es_log w)) \<noteq> None)"
  proof (cases "es_faults w (length (es_log w)) \<noteq> None \<or> stored_doc w (INDEX_NAME cfg) i = None")
    case True
    then show ?thesis by (auto simp: update_document_not_found)
  next
    case False
    then obtain cur where f: "es_faults w (length (es_log w)) = None"
      and cur: "stored_doc w (INDEX_NAME cfg) i = Some cur"
      by auto
    have "fst (update_document cfg i req w) \<noteq> Inl NotFound"
      unfolding update_document_found [OF f cur]
      by (metis update_rest_raises prod.collapse)
    then show ?thesis using False by simp
  qed
qed

text \<open>
  Claim C5, amended. \<^verbatim>\<open>delete_document\<close> and \<^verbatim>\<open>update_document\<close> fail with the
  not-found failure exactly when their first request to the store (delete-by-id, resp.
  get-by-id) raises: when the id does not exist, and also when that request meets any
  other failure of the store, which the \<^verbatim>\<open>except Exception\<close> clause turns into not-found
  as well. A failure of a later request of the operation (the visibility sync of delete,
  the upsert and the visibility sync of update) is surfaced as the store's own exception.
\<close>

theorem not_found_iff_lookup_fails:
  "(fst (delete_document cfg i w) = Inl NotFound \<longleftrightarrow>
      (stored_doc w (INDEX_NAME cfg) i = None \<or> es_faults w (length (es_log w)) \<noteq> None))
   \<and> (fst (update_document cfg i req w) = Inl NotFound \<longleftrightarrow>
      (stored_doc w (INDEX_NAME cfg) i = None \<or> es_faults w (length (es_log w)) \<noteq> None))
   \<and> (\<forall>e. es_faults w (length (es_log w)) = None \<longrightarrow>
          stored_doc w (INDEX_NAME cfg) i \<noteq> None \<longrightarrow>
          es_faults w (Suc (length (es_log w))) = Some e \<longrightarrow>
          fst (delete_document cfg i w) = Inl (EsException e))
   \<and> (\<forall>e cur t vec. es_faults w (length (es_log w)) = None \<longrightarrow>
          stored_doc w (INDEX_NAME cfg) i = Some cur \<longrightarrow>
          (req_text req = Some t \<or> req_text req = None \<and> src_text cur = Some t) \<longrightarrow>
          embed_at cfg w (openai_calls w) t = Inr vec \<longrightarrow>
          es_faults w (Suc (length (es_log w))) = Some e \<longrightarrow>
          fst (update_document cfg i req w) = Inl (EsException e))
   \<and> (\<forall>e cur t vec. es_faults w (length (es_log w)) = None \<longrightarrow>
          stored_doc w (INDEX_NAME cfg) i = Some cur \<longrightarrow>
          (req_text req = Some t \<or> req_text req = None \<and> src_text cur = Some t) \<longrightarrow>
          embed_at cfg w (openai_calls w) t = Inr vec \<longrightarrow>
          es_faults w (Suc (length (es_log w))) = None \<longrightarrow>
          es_faults w (Suc (Suc (length (es_log w)))) = Some e \<longrightarrow>
          fst (update_document cfg i req w) = Inl (EsException e))"
  using not_found_iff [of cfg i w req] delete_later_failure [of w cfg i]
    update_later_failure [of w cfg i _ req] update_refresh_failure [of w cfg i _ req]
  by (intro conjI allI impI) blast+

subsection \<open>Hybrid search\<close>

lemma search_hybrid_log:
  assumes "embed cfg (query req) w = (Inr qvec, w1)"
  shows "es_log (snd (search_hybrid cfg req w)) = es_log w @
           [Search (INDEX_NAME cfg)
              \<lparr>sb_size = top_k req,
               sb_query = Some (BoolShould [Match ''text'' (query req)]),
               sb_knn = Some \<lparr>knn_field = ''embedding'', knn_query_vector = qvec,
                              knn_k = top_k req,
                              knn_num_candidates = max (top_k req * 20) 100\<rparr>\<rparr>]"
proof -
  have "es_log w1 = es_log w" using assms by (auto simp: embed_eq)
  then show ?thesis
    by (simp add: search_hybrid_def bind_Inr [where m = "embed cfg (query req)", OF assms]
        search_then_respond_snd)
qed

lemma search_semantic_log:
  assumes "embed cfg (query req) w = (Inr qvec, w1)"
  shows "es_log (snd (search_semantic cfg req w)) = es_log w @
           [Search (INDEX_NAME cfg)
              \<lparr>sb_size = top_k req, sb_query = None,
               sb_knn = Some \<lparr>knn_field = ''embedding'', knn_query_vector = qvec,
                              knn_k = top_k req,
                              knn_num_candidates = max (top_k req * 20) 100\<rparr>\<rparr>]"
proof -
  have "es_log w1 = es_log w" using assms by (auto simp: embed_eq)
  then show ?thesis
    by (simp add: search_semantic_def bind_Inr [where m = "embed cfg (query req)", OF assms]
        search_then_respond_snd)
qed

lemma search_hybrid_embed_fails:
  assumes "embed cfg (query req) w = (Inl e, w1)"
  shows "search_hybrid cfg req w = (Inl e, w1)" and "es_log w1 = es_log w"
  using assms by (auto simp: search_hybrid_def bind_Inl embed_eq)

lemma search_semantic_embed_fails:
  assumes "embed cfg (query req) w = (Inl e, w1)"
  shows "search_semantic cfg req w = (Inl e, w1)" and "es_log w1 = es_log w"
  using assms by (auto simp: search_semantic_def bind_Inl embed_eq)

lemma search_hybrid_fst:
  assumes "embed cfg (query req) w = (Inr qvec, w1)"
  shows "fst (search_hybrid cfg req w) =
           (case fst (es_search (INDEX_NAME cfg)
                        \<lparr>sb_size = top_k req,
                         sb_query = Some (BoolShould [Match ''text'' (query req)]),
                         sb_knn = Some \<lparr>knn_field = ''embedding'', knn_query_vector = qvec,
                                        knn_k = top_k req,
                                        knn_num_candidates = max (top_k req * 20) 100\<rparr>\<rparr> w1) of
              Inl e \<Rightarrow> Inl e
            | Inr hs \<Rightarrow> (case hit_results hs of
                           Inl e \<Rightarrow> Inl e
                         | Inr rs \<Rightarrow> Inr \<lparr>sr_type = ''hybrid'', sr_results = rs\<rparr>))"
  unfolding search_hybrid_def bind_Inr [where m = "embed cfg (query req)", OF assms]
  by (simp add: bind_def respond_fst split: prod.splits sum.splits)

text \<open>
  Claim C7. Once the query is embedded, \<^verbatim>\<open>search_hybrid\<close> sends exactly one request:
  a search whose query is a \<open>bool\<close> with the single \<open>should\<close> clause matching the
  text, together with the nearest-neighbour clause that \<^verbatim>\<open>search_semantic\<close> sends for
  the same query. Its answer is the store's hits, one result per hit in the store's
  order with the store's scores: no ranking step of its own. (When embedding the query
  fails, the operation fails with that exception and sends nothing.)
\<close>

theorem search_hybrid_single_request:
  "(\<forall>qvec w1. embed cfg (query req) w = (Inr qvec, w1) \<longrightarrow>
      es_log (snd (search_hybrid cfg req w)) = es_log w @
           [Search (INDEX_NAME cfg)
              \<lparr>sb_size = top_k req,
               sb_query = Some (BoolShould [Match ''text'' (query req)]),
               sb_knn = Some \<lparr>knn_field = ''embedding'', knn_query_vector = qvec,
                              knn_k = top_k req,
                              knn_num_candidates = max (top_k req * 20) 100\<rparr>\<rparr>]
    \<and> es_log (snd (search_semantic cfg req w)) = es_log w @
           [Search (INDEX_NAME cfg)
              \<lparr>sb_size = top_k req, sb_query = None,
               sb_knn = Some \<lparr>knn_field = ''embedding'', knn_query_vector = qvec,
                              knn_k = top_k req,
                              knn_num_candidates = max (top_k req * 20) 100\<rparr>\<rparr>]
    \<and> fst (search_hybrid cfg req w) =
           (case fst (es_search (INDEX_NAME cfg)
                        \<lparr>sb_size = top_k req,
                         sb_query = Some (BoolShould [Match ''text'' (query req)]),
                         sb_knn = Some \<lparr>knn_field = ''embedding'', knn_query_vector = qvec,
                                        knn_k = top_k req,
                                        knn_num_candidates = max (top_k req * 20) 100\<rparr>\<rparr> w1) of
              Inl e \<Rightarrow> Inl e
            | Inr hs \<Rightarrow> (case hit_results hs of
                           Inl e \<Rightarrow> Inl e
                         | Inr rs \<Rightarrow> Inr \<lparr>sr_type = ''hybrid'', sr_results = rs\<rparr>)))
   \<and> (\<forall>hs rs. hit_results hs = Inr rs \<longrightarrow>
         map res_id rs = map hit_id hs \<and> map res_score rs = map hit_score hs)
   \<and> (\<forall>e w1. embed cfg (query req) w = (Inl e, w1) \<longrightarrow>
         search_hybrid cfg req w = (Inl e, w1) \<and> es_log w1 = es_log w)"
  using search_hybrid_log [of cfg req w] search_semantic_log [of cfg req w]
    search_hybrid_fst [of cfg req w] hit_results_Inr search_hybrid_embed_fails [of cfg req w]
  by (intro conjI allI impI) blast+

subsection \<open>Ingest\<close>

lemma bind_assoc: "bind (bind m f) g = bind m (\<lambda>x. bind (f x) g)"
  by (rule ext) (simp add: bind_def split: prod.splits sum.splits)

lemma ingest_loop_append:
  "ingest_loop cfg meta (xs @ ys) acc = bind (ingest_loop cfg meta xs acc) (ingest_loop cfg meta ys)"
proof (induction xs arbitrary: acc)
  case Nil
  show ?case by (rule ext) (simp add: bind_def return_def)
next
  case (Cons x xs)
  show ?case by (simp add: Cons.IH bind_assoc)
qed

lemma uuid4_eq:
  "uuid4 w = (Inr (uuid_supply w (uuid_calls w)), w\<lparr>uuid_calls := Suc (uuid_calls w)\<rparr>)"
  by (simp add: uuid4_def)

lemma ingest_loop_step:
  "ingest_loop cfg meta (t # rest) acc w = (Inr out, w') \<longleftrightarrow>
     (\<exists>v. embed_at cfg w (openai_calls w) t = Inr v
        \<and> es_faults w (length (es_log w)) = None
        \<and> ingest_loop cfg meta rest (acc @ [uuid_supply w (uuid_calls w)])
            (w\<lparr>uuid_calls := Suc (uuid_calls w),
               openai_calls := openai_calls w + embed_calls cfg,
               es_log := es_log w @ [Index (INDEX_NAME cfg) (uuid_supply w (uuid_calls w))
                                         (doc_of t meta v)],
               es_indices := (es_indices w)(INDEX_NAME cfg \<mapsto>
                 (case es_indices w (INDEX_NAME cfg) of
                    None \<Rightarrow> \<lparr>ix_mapping = [], ix_docs = [], ix_searchable = []\<rparr>
                  | Some ix \<Rightarrow> ix)
                 \<lparr>ix_docs := AList.update (uuid_supply w (uuid_calls w)) (doc_of t meta v)
                     (ix_docs (case es_indices w (INDEX_NAME cfg) of
                        None \<Rightarrow> \<lparr>ix_mapping = [], ix_docs = [], ix_searchable = []\<rparr>
                      | Some ix \<Rightarrow> ix))\<rparr>)\<rparr>) = (Inr out, w'))"
proof -
  let ?wa = "w\<lparr>uuid_calls := Suc (uuid_calls w)\<rparr>"
  have ea: "embed_at cfg ?wa n t = embed_at cfg w n t" for n
    by (rule embed_at_frame) simp
  show ?thesis
    unfolding ingest_loop.simps bind_Inr_iff uuid4_eq embed_eq es_index_Inr_iff
    by (auto simp: ea doc_of_def)
qed

lemma ingest_loop_Inr:
  assumes "ingest_loop cfg meta texts acc w = (Inr out, w')"
    and "es_indices w (INDEX_NAME cfg) = Some ix"
  shows "\<exists>vecs. length vecs = length texts
     \<and> (\<forall>j<length texts.
           embed_at cfg w (openai_calls w + j * embed_calls cfg) (texts ! j) = Inr (vecs ! j))
     \<and> (\<forall>j<length texts. es_faults w (length (es_log w) + j) = None)
     \<and> out = acc @ map (\<lambda>j. uuid_supply w (uuid_calls w + j)) [0 ..< length texts]
     \<and> w' = w\<lparr>uuid_calls := uuid_calls w + length texts,
               openai_calls := openai_calls w + length texts * embed_calls cfg,
               es_log := es_log w @
                 map (\<lambda>j. Index (INDEX_NAME cfg) (uuid_supply w (uuid_calls w + j))
                            (doc_of (texts ! j) meta (vecs ! j))) [0 ..< length texts],
               es_indices := (es_indices w)(INDEX_NAME cfg \<mapsto>
                 ix\<lparr>ix_docs := AList.updates
                       (map (\<lambda>j. uuid_supply w (uuid_calls w + j)) [0 ..< length texts])
                       (map (\<lambda>j. doc_of (texts ! j) meta (vecs ! j)) [0 ..< length texts])
                       (ix_docs ix)\<rparr>)\<rparr>"
  using assms
proof (induction texts arbitrary: acc w ix)
  case Nil
  then show ?case
    by (cases w) (auto simp: return_def fun_upd_idem)
next
  case (Cons t rest)
  let ?id = "uuid_supply w (uuid_calls w)"
  from Cons.prems(1) obtain v where v: "embed_at cfg w (openai_calls w) t = Inr v"
    and f: "es_faults w (length (es_log w)) = None"
    and run: "ingest_loop cfg meta rest (acc @ [?id])
            (w\<lparr>uuid_calls := Suc (uuid_calls w),
               openai_calls := openai_calls w + embed_calls cfg,
               es_log := es_log w @ [Index (INDEX_NAME cfg) ?id (doc_of t meta v)],
               es_indices := (es_indices w)(INDEX_NAME cfg \<mapsto>
                 ix\<lparr>ix_docs := AList.update ?id (doc_of t meta v) (ix_docs ix)\<rparr>)\<rparr>)
            = (Inr out, w')"
    unfolding ingest_loop_step using Cons.prems(2) by auto
  let ?wc = "w\<lparr>uuid_calls := Suc (uuid_calls w),
               openai_calls := openai_calls w + embed_calls cfg,
               es_log := es_log w @ [Index (INDEX_NAME cfg) ?id (doc_of t meta v)],
               es_indices := (es_indices w)(INDEX_NAME cfg \<mapsto>
                 ix\<lparr>ix_docs := AList.update ?id (doc_of t meta v) (ix_docs ix)\<rparr>)\<rparr>"
  have ixc: "es_indices ?wc (INDEX_NAME cfg)
               = Some (ix\<lparr>ix_docs := AList.update ?id (doc_of t meta v) (ix_docs ix)\<rparr>)"
    by simp
  have ec: "embed_at cfg ?wc n s = embed_at cfg w n s" for n s
    by (rule embed_at_frame) simp
  from Cons.IH [OF run ixc] obtain vecs where len: "length vecs = length rest"
    and emb0: "\<forall>j<length rest.
           embed_at cfg ?wc (openai_calls ?wc + j * embed_calls cfg) (rest ! j) = Inr (vecs ! j)"
    and flt0: "\<forall>j<length rest. es_faults ?wc (length (es_log ?wc) + j) = None"
    and out0: "out = (acc @ [?id]) @ map (\<lambda>j. uuid_supply ?wc (uuid_calls ?wc + j)) [0 ..< length rest]"
    and w': "w' = ?wc\<lparr>uuid_calls := uuid_calls ?wc + length rest,
               openai_calls := openai_calls ?wc + length rest * embed_calls cfg,
               es_log := es_log ?wc @
                 map (\<lambda>j. Index (INDEX_NAME cfg) (uuid_supply ?wc (uuid_calls ?wc + j))
                            (doc_of (rest ! j) meta (vecs ! j))) [0 ..< length rest],
               es_indices := (es_indices ?wc)(INDEX_NAME cfg \<mapsto>
                 (ix\<lparr>ix_docs := AList.update ?id (doc_of t meta v) (ix_docs ix)\<rparr>)
                   \<lparr>ix_docs := AList.updates
                       (map (\<lambda>j. uuid_supply ?wc (uuid_calls ?wc + j)) [0 ..< length rest])
                       (map (\<lambda>j. doc_of (rest ! j) meta (vecs ! j)) [0 ..< length rest])
                       (ix_docs (ix\<lparr>ix_docs := AList.update ?id (doc_of t meta v) (ix_docs ix)\<rparr>))\<rparr>)\<rparr>"
    by blast
  have emb: "\<forall>j<length rest.
           embed_at cfg w (openai_calls w + embed_calls cfg + j * embed_calls cfg) (rest ! j)
             = Inr (vecs ! j)"
    using emb0 unfolding ec by simp
  have flt: "\<forall>j<length rest. es_faults w (Suc (length (es_log w)) + j) = None"
    using flt0 by simp
  have out: "out = (acc @ [?id]) @ map (\<lambda>j. uuid_supply w (Suc (uuid_calls w) + j)) [0 ..< length rest]"
    using out0 by simp
  show ?case
  proof (intro exI [of _ "v # vecs"] conjI)
    show "length (v # vecs) = length (t # rest)" using len by simp
    show "\<forall>j<length (t # rest).
           embed_at cfg w (openai_calls w + j * embed_calls cfg) ((t # rest) ! j) = Inr ((v # vecs) ! j)"
    proof (intro allI impI)
      fix j assume "j < length (t # rest)"
      then show "embed_at cfg w (openai_calls w + j * embed_calls cfg) ((t # rest) ! j) = Inr ((v # vecs) ! j)"
        using v emb by (cases j) (auto simp: add.assoc)
    qed
    show "\<forall>j<length (t # rest). es_faults w (length (es_log w) + j) = None"
    proof (intro allI impI)
      fix j assume "j < length (t # rest)"
      then show "es_faults w (length (es_log w) + j) = None"
        using f flt by (cases j) auto
    qed
    show "out = acc @ map (\<lambda>j. uuid_supply w (uuid_calls w + j)) [0 ..< length (t # rest)]"
      unfolding out by (simp add: map_upt_Suc del: upt_Suc)
    show "w' = w\<lparr>uuid_calls := uuid_calls w + length (t # rest),
               openai_calls := openai_calls w + length (t # rest) * embed_calls cfg,
               es_log := es_log w @
                 map (\<lambda>j. Index (INDEX_NAME cfg) (uuid_supply w (uuid_calls w + j))
                            (doc_of ((t # rest) ! j) meta ((v # vecs) ! j))) [0 ..< length (t # rest)],
               es_indices := (es_indices w)(INDEX_NAME cfg \<mapsto>
                 ix\<lparr>ix_docs := AList.updates
                       (map (\<lambda>j. uuid_supply w (uuid_calls w + j)) [0 ..< length (t # rest)])
                       (map (\<lambda>j. doc_of ((t # rest) ! j) meta ((v # vecs) ! j)) [0 ..< length (t # rest)])
                       (ix_docs ix)\<rparr>)\<rparr>"
      unfolding w' by (cases w) (simp add: map_upt_Suc del: upt_Suc)
  qed
qed

lemma ensure_index_Inr_iff:
  "ensure_index cfg w = (Inr u, w1) \<longleftrightarrow>
     (es_faults w (length (es_log w)) = None \<and>
      (case es_indices w (INDEX_NAME cfg) of
         Some ix \<Rightarrow> w1 = w\<lparr>es_log := es_log w @ [IndicesExists (INDEX_NAME cfg)]\<rparr>
       | None \<Rightarrow>
           es_faults w (Suc (length (es_log w))) = None \<and>
           w1 = w\<lparr>es_log := es_log w @ [IndicesExists (INDEX_NAME cfg),
                                          IndicesCreate (INDEX_NAME cfg) (index_mapping cfg)],
                   es_indices := (es_indices w)(INDEX_NAME cfg \<mapsto>
                     \<lparr>ix_mapping = index_mapping cfg, ix_docs = [], ix_searchable = []\<rparr>)\<rparr>))"
  by (cases "es_faults w (length (es_log w))"; cases "es_faults w (Suc (length (es_log w)))";
      cases "es_indices w (INDEX_NAME cfg)")
     (auto simp: ensure_index_def bind_def return_def es_indices_exists_def es_indices_create_def
        es_send_def Let_def)

lemma ensure_index_Inl:
  assumes "ensure_index cfg w = (Inl e, w1)"
  shows "es_indices w1 = es_indices w \<and> uuid_calls w1 = uuid_calls w \<and> openai_calls w1 = openai_calls w
       \<and> (es_log w1 = es_log w @ [IndicesExists (INDEX_NAME cfg)]
          \<or> es_log w1 = es_log w @ [IndicesExists (INDEX_NAME cfg),
                                      IndicesCreate (INDEX_NAME cfg) (index_mapping cfg)])"
  using assms
  by (cases "es_faults w (length (es_log w))"; cases "es_faults w (Suc (length (es_log w)))";
      cases "es_indices w (INDEX_NAME cfg)")
     (auto simp: ensure_index_def bind_def return_def es_indices_exists_def es_indices_create_def
        es_send_def Let_def)

lemma ensure_index_exists:
  assumes "ensure_index cfg w = (Inr u, w1)"
  shows "es_indices w1 (INDEX_NAME cfg) \<noteq> None"
    and "uuid_supply w1 = uuid_supply w" and "uuid_calls w1 = uuid_calls w"
    and "openai_service w1 = openai_service w" and "openai_calls w1 = openai_calls w"
    and "es_faults w1 = es_faults w"
  using assms unfolding ensure_index_Inr_iff
  by (auto split: option.splits)

lemma ensure_index_again:
  assumes "ensure_index cfg w = (Inr (), w1)" and "es_faults w1 (length (es_log w1)) = None"
  shows "ensure_index cfg w1 = (Inr (), w1\<lparr>es_log := es_log w1 @ [IndicesExists (INDEX_NAME cfg)]\<rparr>)"
proof -
  from ensure_index_exists(1) [OF assms(1)] obtain ix where "es_indices w1 (INDEX_NAME cfg) = Some ix"
    by auto
  then show ?thesis
    unfolding ensure_index_Inr_iff using assms(2) by simp
qed

lemma ingest_Inr_iff:
  "ingest cfg req w = (Inr resp, w') \<longleftrightarrow>
     (\<exists>w1 acc w2. ensure_index cfg w = (Inr (), w1)
        \<and> ingest_loop cfg (case metadatos req of None \<Rightarrow> [] | Some m \<Rightarrow> m) (frases req) [] w1
             = (Inr acc, w2)
        \<and> es_indices_refresh (INDEX_NAME cfg) w2 = (Inr (), w')
        \<and> resp = \<lparr>inserted_count = length acc, ids = acc\<rparr>)"
proof -
  have m: "(case metadatos req of None \<Rightarrow> [] | Some m \<Rightarrow> if m = [] then [] else m)
         = (case metadatos req of None \<Rightarrow> [] | Some m \<Rightarrow> m)"
    by (simp split: option.splits)
  show ?thesis
    unfolding ingest_def Let_def m bind_Inr_iff
    by (auto simp: return_def)
qed

lemma updates_nth:
  assumes "distinct ks" and "length ks = length vs" and "j < length ks"
  shows "map_of (AList.updates ks vs al) (ks ! j) = Some (vs ! j)"
  using assms
proof (induction ks arbitrary: vs al j)
  case Nil
  then show ?case by simp
next
  case (Cons k ks)
  then obtain v vs' where vs: "vs = v # vs'" by (cases vs) auto
  show ?case
  proof (cases j)
    case 0
    then show ?thesis using Cons.prems vs
      by (simp add: updates_conv' update_conv')
  next
    case (Suc j')
    then have "ks ! j' \<in> set ks" using Cons.prems by simp
    then have "ks ! j' \<noteq> k" using Cons.prems by auto
    then show ?thesis using Suc Cons.prems vs Cons.IH [of vs' j']
      by (simp add: update_conv')
  qed
qed

text \<open>
  Claim C1. When \<^verbatim>\<open>ingest\<close> returns for the texts \<open>t\<^sub>0 .. t\<^sub>n\<^sub>-\<^sub>1\<close>, it returns
  \<open>n\<close> ids, the \<open>j\<close>-th being the \<open>j\<close>-th identifier drawn from the generator during
  the call; after the schema check the store receives, in order, one upsert per text
  under that id with the text, the request's metadata (the empty dictionary when none
  was given) and the vector \<^verbatim>\<open>embed\<close> answered for that text, and then the visibility
  sync. When the drawn identifiers are pairwise different, each of these documents is
  stored, and visible to searches, under its id.
\<close>

theorem ingest_ids_and_documents:
  assumes ok: "ingest cfg req w = (Inr resp, w')"
  shows "\<exists>w1 ix vecs.
      ensure_index cfg w = (Inr (), w1) \<and> es_indices w1 (INDEX_NAME cfg) = Some ix
    \<and> length (ids resp) = length (frases req)
    \<and> inserted_count resp = length (frases req)
    \<and> (\<forall>j<length (frases req). ids resp ! j = uuid_supply w (uuid_calls w + j))
    \<and> length vecs = length (frases req)
    \<and> (\<forall>j<length (frases req).
          embed_at cfg w (openai_calls w + j * embed_calls cfg) (frases req ! j) = Inr (vecs ! j))
    \<and> es_log w' = es_log w1 @
         map (\<lambda>j. Index (INDEX_NAME cfg) (ids resp ! j)
                    (doc_of (frases req ! j)
                       (case metadatos req of None \<Rightarrow> [] | Some m \<Rightarrow> m) (vecs ! j)))
             [0 ..< length (frases req)]
         @ [IndicesRefresh (INDEX_NAME cfg)]
    \<and> (distinct (ids resp) \<longrightarrow>
         (\<forall>j<length (frases req).
            stored_doc w' (INDEX_NAME cfg) (ids resp ! j)
              = Some (doc_of (frases req ! j)
                        (case metadatos req of None \<Rightarrow> [] | Some m \<Rightarrow> m) (vecs ! j))
          \<and> visible_doc w' (INDEX_NAME cfg) (ids resp ! j)
              = Some (doc_of (frases req ! j)
                        (case metadatos req of None \<Rightarrow> [] | Some m \<Rightarrow> m) (vecs ! j))))"
proof -
  let ?idx = "INDEX_NAME cfg"
  let ?meta = "case metadatos req of None \<Rightarrow> [] | Some m \<Rightarrow> m"
  let ?n = "length (frases req)"
  from ok obtain w1 acc w2 where ens: "ensure_index cfg w = (Inr (), w1)"
    and loop: "ingest_loop cfg ?meta (frases req) [] w1 = (Inr acc, w2)"
    and refr: "es_indices_refresh ?idx w2 = (Inr (), w')"
    and resp: "resp = \<lparr>inserted_count = length acc, ids = acc\<rparr>"
    unfolding ingest_Inr_iff by blast
  note fr = ensure_index_exists [OF ens]
  from fr(1) obtain ix where ix: "es_indices w1 ?idx = Some ix" by auto
  have ea: "embed_at cfg w1 n s = embed_at cfg w n s" for n s
    by (rule embed_at_frame) (rule fr(4))
  from ingest_loop_Inr [OF loop ix] obtain vecs where len: "length vecs = ?n"
    and emb0: "\<forall>j<?n. embed_at cfg w1 (openai_calls w1 + j * embed_calls cfg) (frases req ! j)
                  = Inr (vecs ! j)"
    and acc0: "acc = [] @ map (\<lambda>j. uuid_supply w1 (uuid_calls w1 + j)) [0 ..< ?n]"
    and w2: "w2 = w1\<lparr>uuid_calls := uuid_calls w1 + ?n,
               openai_calls := openai_calls w1 + ?n * embed_calls cfg,
               es_log := es_log w1 @
                 map (\<lambda>j. Index ?idx (uuid_supply w1 (uuid_calls w1 + j))
                            (doc_of (frases req ! j) ?meta (vecs ! j))) [0 ..< ?n],
               es_indices := (es_indices w1)(?idx \<mapsto>
                 ix\<lparr>ix_docs := AList.updates
                       (map (\<lambda>j. uuid_supply w1 (uuid_calls w1 + j)) [0 ..< ?n])
                       (map (\<lambda>j. doc_of (frases req ! j) ?meta (vecs ! j)) [0 ..< ?n])
                       (ix_docs ix)\<rparr>)\<rparr>"
    by blast
  have acc: "acc = map (\<lambda>j. uuid_supply w (uuid_calls w + j)) [0 ..< ?n]"
    using acc0 fr(2,3) by simp
  have ids: "ids resp = acc" using resp by simp
  let ?docs = "map (\<lambda>j. doc_of (frases req ! j) ?meta (vecs ! j)) [0 ..< ?n]"
  have w2ix: "es_indices w2 ?idx = Some (ix\<lparr>ix_docs := AList.updates acc ?docs (ix_docs ix)\<rparr>)"
    unfolding w2 acc using fr(2,3) by simp
  have log2: "es_log w2 = es_log w1 @
                 map (\<lambda>j. Index ?idx (acc ! j) (doc_of (frases req ! j) ?meta (vecs ! j))) [0 ..< ?n]"
    unfolding w2 acc using fr(2,3) by simp
  from refr have w': "w' = w2\<lparr>es_log := es_log w2 @ [IndicesRefresh ?idx],
                  es_indices := (es_indices w2)(?idx \<mapsto>
                    (ix\<lparr>ix_docs := AList.updates acc ?docs (ix_docs ix)\<rparr>)
                      \<lparr>ix_searchable := AList.updates acc ?docs (ix_docs ix)\<rparr>)\<rparr>"
    unfolding es_indices_refresh_Inr_iff using w2ix by auto
  have stored: "stored_doc w' ?idx (acc ! j) = Some (?docs ! j)
              \<and> visible_doc w' ?idx (acc ! j) = Some (?docs ! j)"
    if "distinct acc" and "j < ?n" for j
  proof -
    have "map_of (AList.updates acc ?docs (ix_docs ix)) (acc ! j) = Some (?docs ! j)"
      using that by (intro updates_nth) (simp_all add: acc)
    then show ?thesis
      unfolding w' by (simp add: stored_doc_def visible_doc_def)
  qed
  show ?thesis
  proof (intro exI [of _ w1] exI [of _ ix] exI [of _ vecs] conjI)
    show "ensure_index cfg w = (Inr (), w1)" by (rule ens)
    show "es_indices w1 ?idx = Some ix" by (rule ix)
    show "length (ids resp) = ?n" unfolding ids acc by simp
    show "inserted_count resp = ?n" unfolding resp acc by simp
    show "\<forall>j<?n. ids resp ! j = uuid_supply w (uuid_calls w + j)"
      unfolding ids acc by simp
    show "length vecs = ?n" by (rule len)
    show "\<forall>j<?n. embed_at cfg w (openai_calls w + j * embed_calls cfg) (frases req ! j)
                  = Inr (vecs ! j)"
      using emb0 unfolding ea fr(5) .
    show "es_log w' = es_log w1 @
         map (\<lambda>j. Index ?idx (ids resp ! j) (doc_of (frases req ! j) ?meta (vecs ! j))) [0 ..< ?n]
         @ [IndicesRefresh ?idx]"
      unfolding w' ids using log2 by simp
    show "distinct (ids resp) \<longrightarrow>
         (\<forall>j<?n. stored_doc w' ?idx (ids resp ! j) = Some (doc_of (frases req ! j) ?meta (vecs ! j))
          \<and> visible_doc w' ?idx (ids resp ! j) = Some (doc_of (frases req ! j) ?meta (vecs ! j)))"
      unfolding ids using stored by simp
  qed
qed

lemma ingest_fails_in_loop:
  assumes "ensure_index cfg w = (Inr (), w1)"
    and "ingest_loop cfg (case m of None \<Rightarrow> [] | Some x \<Rightarrow> x) texts [] w1 = (Inl e, w3)"
  shows "ingest cfg \<lparr>frases = texts, metadatos = m\<rparr> w = (Inl e, w3)"
proof -
  have m: "(case m of None \<Rightarrow> [] | Some m \<Rightarrow> if m = [] then [] else m)
         = (case m of None \<Rightarrow> [] | Some x \<Rightarrow> x)"
    by (simp split: option.splits)
  show ?thesis
    using assms(2)
    by (simp add: ingest_def Let_def m bind_Inr [where m = "ensure_index cfg", OF assms(1)] bind_Inl)
qed

lemma ingest_loop_fails_at:
  assumes pre: "ingest_loop cfg meta pre [] w1 = (Inr ids_pre, w2)"
    and fail: "embed cfg t (snd (uuid4 w2)) = (Inl e, w3)
             \<or> (\<exists>vec wb. embed cfg t (snd (uuid4 w2)) = (Inr vec, wb)
                  \<and> es_index (INDEX_NAME cfg) (uuid_supply w2 (uuid_calls w2)) (doc_of t meta vec) wb
                      = (Inl e, w3))"
  shows "ingest_loop cfg meta (pre @ t # post) [] w1 = (Inl e, w3)"
proof -
  have "ingest_loop cfg meta (pre @ t # post) [] w1 = ingest_loop cfg meta (t # post) ids_pre w2"
    by (simp add: ingest_loop_append bind_Inr [where m = "ingest_loop cfg meta pre []", OF pre])
  also have "\<dots> = (Inl e, w3)"
    using fail
    by (auto simp: bind_def uuid4_def doc_of_def)
  finally show ?thesis .
qed

lemma es_index_Inl:
  assumes "es_index idx i doc w = (Inl e, w')"
  shows "w' = w\<lparr>es_log := es_log w @ [Index idx i doc]\<rparr>"
  using assms by (auto simp: es_index_def es_send_def Let_def split: option.splits)

text \<open>
  Claim C9. Let the texts before position \<open>i\<close> be ingested, leaving the world \<open>w2\<close>,
  and let the text at position \<open>i\<close> fail, in \<^verbatim>\<open>embed\<close> or in the upsert. Then
  \<^verbatim>\<open>ingest\<close> fails with that very exception; the collections of the store are those of
  \<open>w2\<close>, that is the earlier contents with the documents of the texts before \<open>i\<close>
  upserted and nothing else; and after \<open>w2\<close> the store received at most the upsert that
  failed: no deletion, no rollback.
\<close>

theorem ingest_partial_failure:
  assumes ens: "ensure_index cfg w = (Inr (), w1)"
    and pre: "ingest_loop cfg (case m of None \<Rightarrow> [] | Some x \<Rightarrow> x) pre [] w1 = (Inr ids_pre, w2)"
    and fail: "embed cfg t (snd (uuid4 w2)) = (Inl e, w3)
             \<or> (\<exists>vec wb. embed cfg t (snd (uuid4 w2)) = (Inr vec, wb)
                  \<and> es_index (INDEX_NAME cfg) (uuid_supply w2 (uuid_calls w2))
                        (doc_of t (case m of None \<Rightarrow> [] | Some x \<Rightarrow> x) vec) wb
                      = (Inl e, w3))"
  shows "ingest cfg \<lparr>frases = pre @ t # post, metadatos = m\<rparr> w = (Inl e, w3)
       \<and> es_indices w3 = es_indices w2
       \<and> (es_log w3 = es_log w2
          \<or> (\<exists>d. es_log w3 = es_log w2 @ [Index (INDEX_NAME cfg) (uuid_supply w2 (uuid_calls w2)) d]))
       \<and> (\<exists>ix vecs. es_indices w1 (INDEX_NAME cfg) = Some ix
            \<and> length vecs = length pre
            \<and> ids_pre = map (\<lambda>j. uuid_supply w1 (uuid_calls w1 + j)) [0 ..< length pre]
            \<and> es_indices w3 (INDEX_NAME cfg)
                = Some (ix\<lparr>ix_docs := AList.updates ids_pre
                              (map (\<lambda>j. doc_of (pre ! j) (case m of None \<Rightarrow> [] | Some x \<Rightarrow> x)
                                          (vecs ! j)) [0 ..< length pre])
                              (ix_docs ix)\<rparr>)
            \<and> (distinct ids_pre \<longrightarrow>
                 (\<forall>j<length pre. stored_doc w3 (INDEX_NAME cfg) (ids_pre ! j)
                     = Some (doc_of (pre ! j) (case m of None \<Rightarrow> [] | Some x \<Rightarrow> x) (vecs ! j)))))"
proof -
  let ?idx = "INDEX_NAME cfg"
  let ?meta = "case m of None \<Rightarrow> [] | Some x \<Rightarrow> x"
  have whole: "ingest cfg \<lparr>frases = pre @ t # post, metadatos = m\<rparr> w = (Inl e, w3)"
    by (rule ingest_fails_in_loop [OF ens]) (rule ingest_loop_fails_at [OF pre fail])
  have frame: "es_indices w3 = es_indices w2
       \<and> (es_log w3 = es_log w2
          \<or> (\<exists>d. es_log w3 = es_log w2 @ [Index ?idx (uuid_supply w2 (uuid_calls w2)) d]))"
    using fail
  proof
    assume "embed cfg t (snd (uuid4 w2)) = (Inl e, w3)"
    then show ?thesis by (auto simp: embed_eq uuid4_def)
  next
    assume "\<exists>vec wb. embed cfg t (snd (uuid4 w2)) = (Inr vec, wb)
                  \<and> es_index ?idx (uuid_supply w2 (uuid_calls w2)) (doc_of t ?meta vec) wb
                      = (Inl e, w3)"
    then obtain vec wb where wb: "embed cfg t (snd (uuid4 w2)) = (Inr vec, wb)"
      and ix: "es_index ?idx (uuid_supply w2 (uuid_calls w2)) (doc_of t ?meta vec) wb = (Inl e, w3)"
      by blast
    from wb have "es_indices wb = es_indices w2" "es_log wb = es_log w2"
      by (auto simp: embed_eq uuid4_def)
    then show ?thesis using es_index_Inl [OF ix] by auto
  qed
  from ensure_index_exists(1) [OF ens] obtain ix where ix: "es_indices w1 ?idx = Some ix" by auto
  from ingest_loop_Inr [OF pre ix] obtain vecs where len: "length vecs = length pre"
    and ids: "ids_pre = [] @ map (\<lambda>j. uuid_supply w1 (uuid_calls w1 + j)) [0 ..< length pre]"
    and w2: "w2 = w1\<lparr>uuid_calls := uuid_calls w1 + length pre,
               openai_calls := openai_calls w1 + length pre * embed_calls cfg,
               es_log := es_log w1 @
                 map (\<lambda>j. Index ?idx (uuid_supply w1 (uuid_calls w1 + j))
                            (doc_of (pre ! j) ?meta (vecs ! j))) [0 ..< length pre],
               es_indices := (es_indices w1)(?idx \<mapsto>
                 ix\<lparr>ix_docs := AList.updates
                       (map (\<lambda>j. uuid_supply w1 (uuid_calls w1 + j)) [0 ..< length pre])
                       (map (\<lambda>j. doc_of (pre ! j) ?meta (vecs ! j)) [0 ..< length pre])
                       (ix_docs ix)\<rparr>)\<rparr>"
    by blast
  let ?docs = "map (\<lambda>j. doc_of (pre ! j) ?meta (vecs ! j)) [0 ..< length pre]"
  have ids': "ids_pre = map (\<lambda>j. uuid_supply w1 (uuid_calls w1 + j)) [0 ..< length pre]"
    using ids by simp
  have w3ix: "es_indices w3 ?idx = Some (ix\<lparr>ix_docs := AList.updates ids_pre ?docs (ix_docs ix)\<rparr>)"
    using frame unfolding w2 ids' by simp
  have stored: "stored_doc w3 ?idx (ids_pre ! j) = Some (doc_of (pre ! j) ?meta (vecs ! j))"
    if "distinct ids_pre" and "j < length pre" for j
  proof -
    have "map_of (AList.updates ids_pre ?docs (ix_docs ix)) (ids_pre ! j) = Some (?docs ! j)"
      using that by (intro updates_nth) (simp_all add: ids')
    then show ?thesis
      using that(2) by (simp add: stored_doc_def w3ix)
  qed
  show ?thesis
    using whole frame ix len ids' w3ix stored by blast
qed

subsection \<open>Dimension of embeddings\<close>

lemma fake_embed_length:
  "fake_embed cfg t = Inr v \<Longrightarrow> length v = nat (EMBEDDING_DIM cfg)"
  by (auto simp: fake_embed_def py_range_def Let_def split: if_splits)

lemma openai_embed_length:
  "openai_embed cfg t w = (Inr v, w') \<Longrightarrow> int (length v) = EMBEDDING_DIM cfg"
  by (auto simp: openai_embed_def Let_def split: if_splits sum.splits)

text \<open>
  Claim C3, amended. The local strategy returns \<open>max D 0\<close> elements, so whenever
  \<^verbatim>\<open>embed\<close> returns a vector under either strategy and the configured dimension \<open>D\<close>
  is not negative, the vector has exactly \<open>D\<close> elements; under the external strategy
  this holds of every \<open>D\<close>. When the external service answers with a vector of another
  length, \<^verbatim>\<open>openai_embed\<close> raises the dimension-mismatch failure instead of returning
  it.
\<close>

theorem embed_dimension:
  "(\<forall>v. fake_embed cfg t = Inr v \<longrightarrow> length v = nat (EMBEDDING_DIM cfg))
   \<and> (\<forall>v w'. embed cfg t w = (Inr v, w') \<longrightarrow> 0 \<le> EMBEDDING_DIM cfg \<longrightarrow>
        int (length v) = EMBEDDING_DIM cfg)
   \<and> (\<forall>v w'. openai_embed cfg t w = (Inr v, w') \<longrightarrow> int (length v) = EMBEDDING_DIM cfg)
   \<and> (\<forall>vec. py_strip (case OPENAI_API_KEY cfg of None \<Rightarrow> [] | Some k \<Rightarrow> k) \<noteq> [] \<longrightarrow>
         openai_service w (openai_calls w)
           (py_strip (case OPENAI_API_KEY cfg of None \<Rightarrow> [] | Some k \<Rightarrow> k))
           (case OPENAI_EMBED_MODEL cfg of None \<Rightarrow> ''text-embedding-3-small'' | Some m \<Rightarrow> m) t
           = Inr vec \<longrightarrow>
         int (length vec) \<noteq> EMBEDDING_DIM cfg \<longrightarrow>
         fst (openai_embed cfg t w)
           = Inl (HTTPException 500 (Dimension_embedding (length vec) (EMBEDDING_DIM cfg))))"
proof (intro conjI allI impI)
  fix v assume "fake_embed cfg t = Inr v"
  then show "length v = nat (EMBEDDING_DIM cfg)" by (rule fake_embed_length)
next
  fix v w' assume "embed cfg t w = (Inr v, w')" and "0 \<le> EMBEDDING_DIM cfg"
  then show "int (length v) = EMBEDDING_DIM cfg"
    by (auto simp: embed_def dest: fake_embed_length openai_embed_length split: if_splits)
next
  fix v w' assume "openai_embed cfg t w = (Inr v, w')"
  then show "int (length v) = EMBEDDING_DIM cfg" by (rule openai_embed_length)
next
  fix vec
  assume "py_strip (case OPENAI_API_KEY cfg of None \<Rightarrow> [] | Some k \<Rightarrow> k) \<noteq> []"
    and "openai_service w (openai_calls w)
           (py_strip (case OPENAI_API_KEY cfg of None \<Rightarrow> [] | Some k \<Rightarrow> k))
           (case OPENAI_EMBED_MODEL cfg of None \<Rightarrow> ''text-embedding-3-small'' | Some m \<Rightarrow> m) t
           = Inr vec"
    and "int (length vec) \<noteq> EMBEDDING_DIM cfg"
  then show "fst (openai_embed cfg t w)
           = Inl (HTTPException 500 (Dimension_embedding (length vec) (EMBEDDING_DIM cfg)))"
    by (simp add: openai_embed_def Let_def)
qed

subsection \<open>Schema\<close>

lemma search_lexical_snd:
  "snd (search_lexical cfg req w) =
     w\<lparr>es_log := es_log w @
        [Search (INDEX_NAME cfg)
           \<lparr>sb_size = top_k req, sb_query = Some (Match ''text'' (query req)), sb_knn = None\<rparr>]\<rparr>"
  by (simp add: search_lexical_def search_then_respond_snd)

lemma search_semantic_store:
  "es_indices (snd (search_semantic cfg req w)) = es_indices w
   \<and> (es_log (snd (search_semantic cfg req w)) = es_log w
      \<or> (\<exists>body. es_log (snd (search_semantic cfg req w)) = es_log w @ [Search (INDEX_NAME cfg) body]))"
proof (cases "embed cfg (query req) w")
  case (Pair r w1)
  then have w1: "es_indices w1 = es_indices w" "es_log w1 = es_log w"
    by (auto simp: embed_eq)
  show ?thesis
  proof (cases r)
    case (Inl e)
    then show ?thesis using search_semantic_embed_fails [of cfg req w e w1] Pair w1 by simp
  next
    case (Inr qvec)
    then show ?thesis
      using Pair w1
      by (simp add: search_semantic_def bind_Inr [where m = "embed cfg (query req)"]
          search_then_respond_snd)
  qed
qed

lemma search_hybrid_store:
  "es_indices (snd (search_hybrid cfg req w)) = es_indices w
   \<and> (es_log (snd (search_hybrid cfg req w)) = es_log w
      \<or> (\<exists>body. es_log (snd (search_hybrid cfg req w)) = es_log w @ [Search (INDEX_NAME cfg) body]))"
proof (cases "embed cfg (query req) w")
  case (Pair r w1)
  then have w1: "es_indices w1 = es_indices w" "es_log w1 = es_log w"
    by (auto simp: embed_eq)
  show ?thesis
  proof (cases r)
    case (Inl e)
    then show ?thesis using search_hybrid_embed_fails [of cfg req w e w1] Pair w1 by simp
  next
    case (Inr qvec)
    then show ?thesis
      using Pair w1
      by (simp add: search_hybrid_def bind_Inr [where m = "embed cfg (query req)"]
          search_then_respond_snd)
  qed
qed

lemma ensure_index_log:
  assumes "ensure_index cfg w = (r, w1)"
  shows "es_log w1 = es_log w @ [IndicesExists (INDEX_NAME cfg)]
       \<or> es_log w1 = es_log w @ [IndicesExists (INDEX_NAME cfg),
                                   IndicesCreate (INDEX_NAME cfg) (index_mapping cfg)]"
proof (cases r)
  case (Inl e)
  then show ?thesis using ensure_index_Inl [of cfg w e w1] assms by simp
next
  case (Inr u)
  then show ?thesis using assms unfolding Inr ensure_index_Inr_iff
    by (auto split: option.splits)
qed

text \<open>
  Claim C6, amended. \<^verbatim>\<open>ingest\<close> runs \<^verbatim>\<open>ensure_index\<close> first: when that fails,
  ingest fails with the same exception and stores nothing; when it succeeds, the
  collection exists and everything else ingest does starts from that world.
  \<^verbatim>\<open>ensure_index\<close> sends an existence check and, only when the collection is absent, a
  creation request; invoked again after a success it only checks and changes nothing.
  The three search operations do not ensure the schema: lexical search sends its search
  request and nothing else, semantic and hybrid search send at most one search request,
  and none of them changes the collections of the store.
\<close>

theorem schema_ensured_by_ingest:
  "(\<forall>e w1. ensure_index cfg w = (Inl e, w1) \<longrightarrow>
       ingest cfg req w = (Inl e, w1) \<and> es_indices w1 = es_indices w)
   \<and> (\<forall>w1. ensure_index cfg w = (Inr (), w1) \<longrightarrow>
       es_indices w1 (INDEX_NAME cfg) \<noteq> None
       \<and> ingest cfg req w =
           bind (ingest_loop cfg (case metadatos req of None \<Rightarrow> [] | Some m \<Rightarrow> m) (frases req) [])
             (\<lambda>acc. bind (es_indices_refresh (INDEX_NAME cfg))
                (\<lambda>_. return \<lparr>inserted_count = length acc, ids = acc\<rparr>)) w1)
   \<and> (\<forall>r w1. ensure_index cfg w = (r, w1) \<longrightarrow>
       es_log w1 = es_log w @ [IndicesExists (INDEX_NAME cfg)]
       \<or> es_log w1 = es_log w @ [IndicesExists (INDEX_NAME cfg),
                                   IndicesCreate (INDEX_NAME cfg) (index_mapping cfg)])
   \<and> (\<forall>w1. ensure_index cfg w = (Inr (), w1) \<longrightarrow> es_faults w1 (length (es_log w1)) = None \<longrightarrow>
       ensure_index cfg w1
         = (Inr (), w1\<lparr>es_log := es_log w1 @ [IndicesExists (INDEX_NAME cfg)]\<rparr>))
   \<and> snd (search_lexical cfg sreq w) =
       w\<lparr>es_log := es_log w @
          [Search (INDEX_NAME cfg)
             \<lparr>sb_size = top_k sreq, sb_query = Some (Match ''text'' (query sreq)),
              sb_knn = None\<rparr>]\<rparr>
   \<and> es_indices (snd (search_semantic cfg sreq w)) = es_indices w
   \<and> (es_log (snd (search_semantic cfg sreq w)) = es_log w
      \<or> (\<exists>body. es_log (snd (search_semantic cfg sreq w))
                   = es_log w @ [Search (INDEX_NAME cfg) body]))
   \<and> es_indices (snd (search_hybrid cfg sreq w)) = es_indices w
   \<and> (es_log (snd (search_hybrid cfg sreq w)) = es_log w
      \<or> (\<exists>body. es_log (snd (search_hybrid cfg sreq w))
                   = es_log w @ [Search (INDEX_NAME cfg) body]))"
proof -
  have m: "(case metadatos req of None \<Rightarrow> [] | Some m \<Rightarrow> if m = [] then [] else m)
         = (case metadatos req of None \<Rightarrow> [] | Some m \<Rightarrow> m)"
    by (simp split: option.splits)
  have a: "ingest cfg req w = (Inl e, w1) \<and> es_indices w1 = es_indices w"
    if "ensure_index cfg w = (Inl e, w1)" for e w1
    using that ensure_index_Inl [OF that]
    by (simp add: ingest_def bind_Inl)
  have b: "es_indices w1 (INDEX_NAME cfg) \<noteq> None
       \<and> ingest cfg req w =
           bind (ingest_loop cfg (case metadatos req of None \<Rightarrow> [] | Some m \<Rightarrow> m) (frases req) [])
             (\<lambda>acc. bind (es_indices_refresh (INDEX_NAME cfg))
                (\<lambda>_. return \<lparr>inserted_count = length acc, ids = acc\<rparr>)) w1"
    if "ensure_index cfg w = (Inr (), w1)" for w1
    using ensure_index_exists(1) [OF that]
    by (simp add: ingest_def Let_def m bind_Inr [where m = "ensure_index cfg", OF that])
  show ?thesis
    using a b ensure_index_log ensure_index_again search_lexical_snd
      search_semantic_store search_hybrid_store
    by (intro conjI allI impI) blast+
qed

section \<open>The properties at sample inputs\<close>

text \<open>
  The definitions that evaluating a run of the service unfolds.
\<close>

lemmas run_defs = bind_def return_def raise_def try_except_def es_send_def es_ping_def
  es_indices_exists_def es_indices_create_def es_indices_refresh_def es_index_def
  es_delete_def es_get_def es_search_def ranked_hits_def List.map_filter_def uuid4_def
  respond_def hit_result_def Let_def

lemmas demo_defs = demo_cfg_def demo_world_def demo_doc_def demo_doc2_def openai_cfg_def
  demo_key_def
  unreachable_world_def no_schema_world_def flaky_world_def index_mapping_def

lemmas eval_defs = run_defs demo_defs embed_def openai_embed_def fake_embed_def demo_digest_def
  bytes_repeat_def py_slice_def py_range_def py_strip_def is_space_def upt_rec
  ensure_index_def stored_doc_def visible_doc_def doc_of_def

lemma demo_fake_embed:
  "fake_embed demo_cfg ''hello world'' = Inr [60761 / 100000, 819 / 100000]"
  "fake_embed demo_cfg ''hola'' = Inr [40242 / 100000, 41712 / 100000]"
  "fake_embed demo_cfg [] = Inr [86595 / 100000, 43992 / 100000]"
  by (simp_all add: fake_embed_def demo_cfg_def demo_digest_def bytes_repeat_def py_slice_def
      py_range_def Let_def upt_rec)

lemma demo_embed: "embed demo_cfg t w = (fake_embed demo_cfg t, w)"
  by (simp add: embed_def demo_cfg_def)

lemma demo_embed_at: "embed_at demo_cfg w n t = fake_embed demo_cfg t"
  by (simp add: embed_at_def demo_embed)

theorem update_metadata_only_witness:
  "update_document demo_cfg ''a'' \<lparr>req_text = None, req_metadatos = Some [(''lang'', JStr ''es'')]\<rparr>
       demo_world
     = (Inr \<lparr>upd_id = ''a'', upd_text = ''hello world''\<rparr>,
        snd (update_document demo_cfg ''a''
               \<lparr>req_text = None, req_metadatos = Some [(''lang'', JStr ''es'')]\<rparr> demo_world))
   \<and> stored_doc demo_world ''phrases_openai'' ''a'' = Some demo_doc
   \<and> stored_doc (snd (update_document demo_cfg ''a''
               \<lparr>req_text = None, req_metadatos = Some [(''lang'', JStr ''es'')]\<rparr> demo_world))
         ''phrases_openai'' ''a''
       = Some \<lparr>src_text = Some ''hello world'', src_meta = Some [(''lang'', JStr ''es'')],
               src_embedding = Some [60761 / 100000, 819 / 100000]\<rparr>"
proof -
  let ?req = "\<lparr>req_text = None, req_metadatos = Some [(''lang'', JStr ''es'')]\<rparr>"
  have "fst (update_document demo_cfg ''a'' ?req demo_world)
          = Inr \<lparr>upd_id = ''a'', upd_text = ''hello world''\<rparr>"
    by (simp add: update_document_def eval_defs)
  then have h: "update_document demo_cfg ''a'' ?req demo_world
     = (Inr \<lparr>upd_id = ''a'', upd_text = ''hello world''\<rparr>,
        snd (update_document demo_cfg ''a'' ?req demo_world))"
    by (simp add: prod_eq_iff)
  have s: "stored_doc demo_world ''phrases_openai'' ''a'' = Some demo_doc"
    by (simp add: eval_defs)
  from update_metadata_only [OF h, of "[(''lang'', JStr ''es'')]"] s
  have "stored_doc (snd (update_document demo_cfg ''a'' ?req demo_world)) ''phrases_openai'' ''a''
       = Some \<lparr>src_text = Some ''hello world'', src_meta = Some [(''lang'', JStr ''es'')],
               src_embedding = Some [60761 / 100000, 819 / 100000]\<rparr>"
    by (auto simp: demo_embed_at demo_fake_embed demo_doc_def) (simp_all add: demo_cfg_def)
  with h s show ?thesis by simp
qed

lemma demo_index: "INDEX_NAME demo_cfg = ''phrases_openai''"
  by (simp add: demo_cfg_def)

theorem update_by_presence_witness:
  "update_document demo_cfg ''a'' \<lparr>req_text = Some [], req_metadatos = Some []\<rparr> demo_world
     = (Inr \<lparr>upd_id = ''a'', upd_text = []\<rparr>,
        snd (update_document demo_cfg ''a''
               \<lparr>req_text = Some [], req_metadatos = Some []\<rparr> demo_world))
   \<and> stored_doc demo_world ''phrases_openai'' ''a'' = Some demo_doc
   \<and> (\<exists>d. stored_doc (snd (update_document demo_cfg ''a''
                 \<lparr>req_text = Some [], req_metadatos = Some []\<rparr> demo_world))
              ''phrases_openai'' ''a'' = Some d
          \<and> src_text d = Some [] \<and> src_meta d = Some []
          \<and> src_embedding d = Some [86595 / 100000, 43992 / 100000])"
proof -
  let ?req = "\<lparr>req_text = Some [], req_metadatos = Some []\<rparr>"
  have "fst (update_document demo_cfg ''a'' ?req demo_world) = Inr \<lparr>upd_id = ''a'', upd_text = []\<rparr>"
    by (simp add: update_document_def eval_defs)
  then have h: "update_document demo_cfg ''a'' ?req demo_world
     = (Inr \<lparr>upd_id = ''a'', upd_text = []\<rparr>, snd (update_document demo_cfg ''a'' ?req demo_world))"
    by (simp add: prod_eq_iff)
  have s: "stored_doc demo_world ''phrases_openai'' ''a'' = Some demo_doc"
    by (simp add: eval_defs)
  from update_by_presence [OF h]
  have "\<exists>d. stored_doc (snd (update_document demo_cfg ''a'' ?req demo_world))
              ''phrases_openai'' ''a'' = Some d
          \<and> src_text d = Some [] \<and> src_meta d = Some []
          \<and> src_embedding d = Some [86595 / 100000, 43992 / 100000]"
    by (auto simp: demo_embed_at demo_fake_embed demo_index)
  with h s show ?thesis by simp
qed

theorem not_found_iff_lookup_fails_witness:
  "stored_doc demo_world ''phrases_openai'' ''zz'' = None
   \<and> fst (delete_document demo_cfg ''zz'' demo_world) = Inl NotFound
   \<and> fst (update_document demo_cfg ''zz'' \<lparr>req_text = Some ''hola'', req_metadatos = None\<rparr>
            demo_world) = Inl NotFound
   \<and> es_faults unreachable_world 0 = Some ConnectionError
   \<and> fst (delete_document demo_cfg ''a'' unreachable_world) = Inl NotFound
   \<and> es_faults (flaky_world\<lparr>es_log := [Ping]\<rparr>) 1 = None
   \<and> es_faults (flaky_world\<lparr>es_log := [Ping]\<rparr>) 2 = Some ConnectionTimeout
   \<and> fst (delete_document demo_cfg ''a'' (flaky_world\<lparr>es_log := [Ping]\<rparr>))
       = Inl (EsException ConnectionTimeout)
   \<and> fst (update_document demo_cfg ''a'' \<lparr>req_text = Some ''hola'', req_metadatos = None\<rparr>
            (flaky_world\<lparr>es_log := [Ping]\<rparr>))
       = Inl (EsException ConnectionTimeout)
   \<and> es_faults flaky_world 0 = None \<and> es_faults flaky_world 1 = None
   \<and> fst (update_document demo_cfg ''a'' \<lparr>req_text = Some ''hola'', req_metadatos = None\<rparr>
            flaky_world)
       = Inl (EsException ConnectionTimeout)"
proof -
  let ?req = "\<lparr>req_text = Some ''hola'', req_metadatos = None\<rparr>"
  let ?fw = "flaky_world\<lparr>es_log := [Ping]\<rparr>"
  have a: "stored_doc demo_world ''phrases_openai'' ''zz'' = None"
    by (simp add: eval_defs)
  have b: "es_faults unreachable_world 0 = Some ConnectionError"
    by (simp add: eval_defs)
  have c: "es_faults ?fw 1 = None" "es_faults ?fw 2 = Some ConnectionTimeout"
    "stored_doc ?fw ''phrases_openai'' ''a'' = Some demo_doc"
    "length (es_log ?fw) = 1" "length (es_log unreachable_world) = 0"
    by (simp_all add: eval_defs)
  have e: "embed_at demo_cfg ?fw (openai_calls ?fw) ''hola'' = Inr [40242 / 100000, 41712 / 100000]"
    by (simp add: demo_embed_at demo_fake_embed)
  from not_found_iff_lookup_fails [of demo_cfg "''zz''" demo_world ?req] a
  have 1: "fst (delete_document demo_cfg ''zz'' demo_world) = Inl NotFound"
    "fst (update_document demo_cfg ''zz'' ?req demo_world) = Inl NotFound"
    by (simp_all add: demo_index)
  from not_found_iff_lookup_fails [of demo_cfg "''a''" unreachable_world ?req] b c(5)
  have 2: "fst (delete_document demo_cfg ''a'' unreachable_world) = Inl NotFound"
    by simp
  from not_found_iff_lookup_fails [of demo_cfg "''a''" ?fw ?req] c e
  have 3: "fst (delete_document demo_cfg ''a'' ?fw) = Inl (EsException ConnectionTimeout)"
    "fst (update_document demo_cfg ''a'' ?req ?fw) = Inl (EsException ConnectionTimeout)"
    by (simp_all add: demo_index numeral_2_eq_2)
  have g: "es_faults flaky_world 0 = None" "es_faults flaky_world 1 = None"
    "es_faults flaky_world 2 = Some ConnectionTimeout"
    "stored_doc flaky_world ''phrases_openai'' ''a'' = Some demo_doc"
    "length (es_log flaky_world) = 0"
    by (simp_all add: eval_defs)
  have e': "embed_at demo_cfg flaky_world (openai_calls flaky_world) ''hola''
              = Inr [40242 / 100000, 41712 / 100000]"
    by (simp add: demo_embed_at demo_fake_embed)
  from not_found_iff_lookup_fails [of demo_cfg "''a''" flaky_world ?req] g e'
  have 4: "fst (update_document demo_cfg ''a'' ?req flaky_world)
             = Inl (EsException ConnectionTimeout)"
    by (simp add: demo_index numeral_2_eq_2)
  from a b c g 1 2 3 4 show ?thesis by simp
qed

text \<open>
  Claim C5 as stated fails: with the store unreachable, deleting or updating the
  document \<open>a\<close>, which exists, fails with not-found, not with a failure of the store.
\<close>

theorem not_found_counterexample:
  "stored_doc unreachable_world ''phrases_openai'' ''a'' = Some demo_doc
   \<and> delete_document demo_cfg ''a'' unreachable_world
       = (Inl NotFound, unreachable_world\<lparr>es_log := [Delete ''phrases_openai'' ''a'']\<rparr>)
   \<and> update_document demo_cfg ''a'' \<lparr>req_text = Some ''hola'', req_metadatos = None\<rparr>
         unreachable_world
       = (Inl NotFound, unreachable_world\<lparr>es_log := [Get ''phrases_openai'' ''a'']\<rparr>)"
  by (simp add: delete_document_def update_document_def eval_defs)

text \<open>
  Claim C6 as stated fails: with no collection in the store, lexical search sends its
  search request at once, with no existence check and no creation, and the store's
  not-found exception comes back.
\<close>

theorem schema_counterexample:
  "es_indices no_schema_world ''phrases_openai'' = None
   \<and> search_lexical demo_cfg \<lparr>query = ''hello'', top_k = 5\<rparr> no_schema_world
       = (Inl (EsException NotFoundError),
          no_schema_world\<lparr>es_log :=
            [Search ''phrases_openai''
               \<lparr>sb_size = 5, sb_query = Some (Match ''text'' ''hello''), sb_knn = None\<rparr>]\<rparr>)"
  by (simp add: search_lexical_def eval_defs)

theorem fake_embed_is_spec_witness:
  "sha256 (demo_cfg\<lparr>EMBEDDING_DIM := 9\<rparr>) ''hello world'' \<noteq> []
   \<and> fake_embed (demo_cfg\<lparr>EMBEDDING_DIM := 9\<rparr>) ''hello world''
       = Inr [60761 / 100000, 819 / 100000, 87333 / 100000, 42874 / 100000, 25124 / 100000,
              87386 / 100000, 3504 / 100000, 87618 / 100000, 60761 / 100000]"
proof -
  have h: "sha256 (demo_cfg\<lparr>EMBEDDING_DIM := 9\<rparr>) ''hello world'' \<noteq> []"
    by (simp add: demo_cfg_def demo_digest_def)
  have "spec_local_embed (sha256 (demo_cfg\<lparr>EMBEDDING_DIM := 9\<rparr>) ''hello world'') 9
        = [60761 / 100000, 819 / 100000, 87333 / 100000, 42874 / 100000, 25124 / 100000,
              87386 / 100000, 3504 / 100000, 87618 / 100000, 60761 / 100000]"
    by (simp add: demo_cfg_def demo_digest_def spec_local_embed_def spec_component_def
        spec_stream_byte_def upt_rec)
  with h fake_embed_is_spec [OF h] show ?thesis
    by (simp add: demo_cfg_def)
qed

theorem search_semantic_request_witness:
  "embed demo_cfg ''hello world'' demo_world = (Inr [60761 / 100000, 819 / 100000], demo_world)
   \<and> fst (search_semantic demo_cfg \<lparr>query = ''hello world'', top_k = 1\<rparr> demo_world)
       = Inr \<lparr>sr_type = ''semantic'',
              sr_results = [\<lparr>res_id = ''bb'', res_text = ''hola'', res_meta = [], res_score = 2\<rparr>]\<rparr>
   \<and> es_log (snd (search_semantic demo_cfg \<lparr>query = ''hello world'', top_k = 1\<rparr> demo_world))
       = [Search ''phrases_openai''
              \<lparr>sb_size = 1, sb_query = None,
               sb_knn = Some \<lparr>knn_field = ''embedding'',
                              knn_query_vector = [60761 / 100000, 819 / 100000],
                              knn_k = 1, knn_num_candidates = 100\<rparr>\<rparr>]"
proof -
  let ?req = "\<lparr>query = ''hello world'', top_k = 1\<rparr>"
  have e: "embed demo_cfg (query ?req) demo_world
             = (Inr [60761 / 100000, 819 / 100000], demo_world)"
    by (simp add: demo_embed demo_fake_embed)
  have r: "fst (search_semantic demo_cfg ?req demo_world)
       = Inr \<lparr>sr_type = ''semantic'',
              sr_results = [\<lparr>res_id = ''bb'', res_text = ''hola'', res_meta = [], res_score = 2\<rparr>]\<rparr>"
    by (simp add: search_semantic_def eval_defs)
  from search_semantic_request [OF e]
  have "es_log (snd (search_semantic demo_cfg ?req demo_world))
       = [Search ''phrases_openai''
              \<lparr>sb_size = 1, sb_query = None,
               sb_knn = Some \<lparr>knn_field = ''embedding'',
                              knn_query_vector = [60761 / 100000, 819 / 100000],
                              knn_k = 1, knn_num_candidates = 100\<rparr>\<rparr>]"
    by (simp add: demo_index) (simp add: demo_world_def)
  with e r show ?thesis by simp
qed

theorem search_hybrid_single_request_witness:
  "embed demo_cfg ''hello world'' demo_world = (Inr [60761 / 100000, 819 / 100000], demo_world)
   \<and> es_log (snd (search_hybrid demo_cfg \<lparr>query = ''hello world'', top_k = 1\<rparr> demo_world))
       = [Search ''phrases_openai''
              \<lparr>sb_size = 1,
               sb_query = Some (BoolShould [Match ''text'' ''hello world'']),
               sb_knn = Some \<lparr>knn_field = ''embedding'',
                              knn_query_vector = [60761 / 100000, 819 / 100000],
                              knn_k = 1, knn_num_candidates = 100\<rparr>\<rparr>]
   \<and> embed (demo_cfg\<lparr>EMBEDDING_PROVIDER := ''openai''\<rparr>) ''hello world'' demo_world
       = (Inl (HTTPException 500 Falta_OPENAI_API_KEY), demo_world)
   \<and> search_hybrid (demo_cfg\<lparr>EMBEDDING_PROVIDER := ''openai''\<rparr>)
         \<lparr>query = ''hello world'', top_k = 1\<rparr> demo_world
       = (Inl (HTTPException 500 Falta_OPENAI_API_KEY), demo_world)"
proof -
  let ?req = "\<lparr>query = ''hello world'', top_k = 1\<rparr>"
  let ?cfg = "demo_cfg\<lparr>EMBEDDING_PROVIDER := ''openai''\<rparr>"
  have e: "embed demo_cfg (query ?req) demo_world
             = (Inr [60761 / 100000, 819 / 100000], demo_world)"
    by (simp add: demo_embed demo_fake_embed)
  have f: "embed ?cfg (query ?req) demo_world
       = (Inl (HTTPException 500 Falta_OPENAI_API_KEY), demo_world)"
    by (simp add: embed_def openai_embed_def py_strip_def demo_cfg_def)
  from search_hybrid_single_request [of demo_cfg ?req demo_world] e
  have 1: "es_log (snd (search_hybrid demo_cfg ?req demo_world))
       = [Search ''phrases_openai''
              \<lparr>sb_size = 1,
               sb_query = Some (BoolShould [Match ''text'' ''hello world'']),
               sb_knn = Some \<lparr>knn_field = ''embedding'',
                              knn_query_vector = [60761 / 100000, 819 / 100000],
                              knn_k = 1, knn_num_candidates = 100\<rparr>\<rparr>]"
    by (simp add: demo_index) (simp add: demo_world_def)
  from search_hybrid_single_request [of ?cfg ?req demo_world] f
  have 2: "search_hybrid ?cfg ?req demo_world
       = (Inl (HTTPException 500 Falta_OPENAI_API_KEY), demo_world)"
    by simp
  from e f 1 2 show ?thesis by simp
qed

theorem embed_dimension_witness:
  "embed demo_cfg ''hello world'' demo_world = (Inr [60761 / 100000, 819 / 100000], demo_world)
   \<and> 0 \<le> EMBEDDING_DIM demo_cfg
   \<and> int (length [60761 / 100000 :: rat, 819 / 100000]) = EMBEDDING_DIM demo_cfg
   \<and> openai_embed openai_cfg ''hello world'' demo_world
       = (Inr [1 / 2, 1 / 4], demo_world\<lparr>openai_calls := 1\<rparr>)
   \<and> int (length [1 / 2 :: rat, 1 / 4]) = EMBEDDING_DIM openai_cfg
   \<and> py_strip (case OPENAI_API_KEY openai_cfg of None \<Rightarrow> [] | Some k \<Rightarrow> k) = demo_key
   \<and> openai_service (demo_world\<lparr>openai_calls := 1\<rparr>) 1 demo_key ''text-embedding-3-small''
        ''hello world'' = Inr [1 / 2]
   \<and> fst (openai_embed openai_cfg ''hello world'' (demo_world\<lparr>openai_calls := 1\<rparr>))
       = Inl (HTTPException 500 (Dimension_embedding 1 2))"
proof -
  let ?w1 = "demo_world\<lparr>openai_calls := 1\<rparr>"
  have e: "embed demo_cfg ''hello world'' demo_world
             = (Inr [60761 / 100000, 819 / 100000], demo_world)"
    by (simp add: demo_embed demo_fake_embed)
  have d: "0 \<le> EMBEDDING_DIM demo_cfg" "EMBEDDING_DIM demo_cfg = 2" "EMBEDDING_DIM openai_cfg = 2"
    by (simp_all add: demo_defs)
  have o: "openai_embed openai_cfg ''hello world'' demo_world = (Inr [1 / 2, 1 / 4], ?w1)"
    by (simp add: eval_defs)
  have k: "py_strip (case OPENAI_API_KEY openai_cfg of None \<Rightarrow> [] | Some k \<Rightarrow> k) = demo_key"
    "(case OPENAI_EMBED_MODEL openai_cfg of None \<Rightarrow> ''text-embedding-3-small'' | Some m \<Rightarrow> m)
       = ''text-embedding-3-small''"
    by (simp_all add: eval_defs)
  have s: "openai_service ?w1 (openai_calls ?w1) demo_key ''text-embedding-3-small''
             ''hello world'' = Inr [1 / 2]"
    by (simp add: eval_defs)
  from embed_dimension [of demo_cfg "''hello world''" demo_world] e d
  have 1: "int (length [60761 / 100000 :: rat, 819 / 100000]) = EMBEDDING_DIM demo_cfg"
    by blast
  from embed_dimension [of openai_cfg "''hello world''" demo_world] o
  have 2: "int (length [1 / 2 :: rat, 1 / 4]) = EMBEDDING_DIM openai_cfg"
    by blast
  have n: "demo_key \<noteq> []" by (simp add: demo_key_def)
  from embed_dimension [of openai_cfg "''hello world''" ?w1] k s d n
  have 3: "fst (openai_embed openai_cfg ''hello world'' ?w1)
       = Inl (HTTPException 500 (Dimension_embedding 1 2))"
    by simp
  from e d o k s 1 2 3 show ?thesis by simp
qed

text \<open>
  Claim C3 as stated fails: with the dimension configured as \<open>-9\<close> the local strategy
  returns the empty vector, which has not \<open>-9\<close> elements.
\<close>

theorem embed_dimension_counterexample:
  "embed (demo_cfg\<lparr>EMBEDDING_DIM := - 9\<rparr>) ''hello world'' demo_world = (Inr [], demo_world)
   \<and> int (length ([] :: vector)) \<noteq> EMBEDDING_DIM (demo_cfg\<lparr>EMBEDDING_DIM := - 9\<rparr>)"
  by (simp add: eval_defs)

theorem schema_ensured_by_ingest_witness:
  "ensure_index demo_cfg no_schema_world
     = (Inr (), snd (ensure_index demo_cfg no_schema_world))
   \<and> es_indices (snd (ensure_index demo_cfg no_schema_world)) ''phrases_openai'' \<noteq> None
   \<and> es_log (snd (ensure_index demo_cfg no_schema_world))
       = [IndicesExists ''phrases_openai'',
          IndicesCreate ''phrases_openai'' (index_mapping demo_cfg)]
   \<and> ensure_index demo_cfg (snd (ensure_index demo_cfg no_schema_world))
       = (Inr (), (snd (ensure_index demo_cfg no_schema_world))
            \<lparr>es_log := es_log (snd (ensure_index demo_cfg no_schema_world))
                          @ [IndicesExists ''phrases_openai'']\<rparr>)
   \<and> ensure_index demo_cfg unreachable_world
       = (Inl (EsException ConnectionError), snd (ensure_index demo_cfg unreachable_world))
   \<and> ingest demo_cfg \<lparr>frases = [''hola''], metadatos = None\<rparr> unreachable_world
       = (Inl (EsException ConnectionError), snd (ensure_index demo_cfg unreachable_world))"
proof -
  let ?w1 = "snd (ensure_index demo_cfg no_schema_world)"
  let ?u1 = "snd (ensure_index demo_cfg unreachable_world)"
  let ?req = "\<lparr>frases = [''hola''], metadatos = None\<rparr>"
  have a: "ensure_index demo_cfg no_schema_world = (Inr (), ?w1)"
    by (simp add: prod_eq_iff eval_defs)
  have l: "es_log ?w1 = [IndicesExists ''phrases_openai'',
                         IndicesCreate ''phrases_openai'' (index_mapping demo_cfg)]"
    by (simp add: eval_defs)
  have f: "es_faults ?w1 (length (es_log ?w1)) = None"
    by (simp add: eval_defs)
  have b: "ensure_index demo_cfg unreachable_world = (Inl (EsException ConnectionError), ?u1)"
    by (simp add: prod_eq_iff eval_defs)
  note thm1 = schema_ensured_by_ingest [of demo_cfg no_schema_world ?req]
  note thm2 = schema_ensured_by_ingest [of demo_cfg unreachable_world ?req]
  from thm1 a have 1: "es_indices ?w1 ''phrases_openai'' \<noteq> None"
    by (simp add: demo_index)
  from thm1 a f have 2: "ensure_index demo_cfg ?w1
       = (Inr (), ?w1\<lparr>es_log := es_log ?w1 @ [IndicesExists ''phrases_openai'']\<rparr>)"
    by (simp add: demo_index)
  from thm2 b have 3: "ingest demo_cfg ?req unreachable_world
       = (Inl (EsException ConnectionError), ?u1)"
    by blast
  from a l b 1 2 3 show ?thesis by simp
qed

theorem ingest_ids_and_documents_witness:
  "ingest demo_cfg \<lparr>frases = [''hello world'', ''hola''], metadatos = None\<rparr> demo_world
     = (Inr \<lparr>inserted_count = 2, ids = [''uuid-1'', ''uuid-11'']\<rparr>,
        snd (ingest demo_cfg \<lparr>frases = [''hello world'', ''hola''], metadatos = None\<rparr>
               demo_world))
   \<and> stored_doc (snd (ingest demo_cfg
                         \<lparr>frases = [''hello world'', ''hola''], metadatos = None\<rparr> demo_world))
        ''phrases_openai'' ''uuid-1''
       = Some (doc_of ''hello world'' [] [60761 / 100000, 819 / 100000])
   \<and> stored_doc (snd (ingest demo_cfg
                         \<lparr>frases = [''hello world'', ''hola''], metadatos = None\<rparr> demo_world))
        ''phrases_openai'' ''uuid-11''
       = Some (doc_of ''hola'' [] [40242 / 100000, 41712 / 100000])"
proof -
  let ?req = "\<lparr>frases = [''hello world'', ''hola''], metadatos = None\<rparr>"
  let ?resp = "\<lparr>inserted_count = 2, ids = [''uuid-1'', ''uuid-11'']\<rparr>"
  let ?w' = "snd (ingest demo_cfg ?req demo_world)"
  have "fst (ingest demo_cfg ?req demo_world) = Inr ?resp"
    by (simp add: ingest_def eval_defs)
  then have h: "ingest demo_cfg ?req demo_world = (Inr ?resp, ?w')"
    by (simp add: prod_eq_iff)
  from ingest_ids_and_documents [OF h] obtain vecs
    where emb: "\<forall>j<length (frases ?req).
          embed_at demo_cfg demo_world (openai_calls demo_world + j * embed_calls demo_cfg)
            (frases ?req ! j) = Inr (vecs ! j)"
      and st: "distinct (ids ?resp) \<longrightarrow>
         (\<forall>j<length (frases ?req).
            stored_doc ?w' (INDEX_NAME demo_cfg) (ids ?resp ! j)
              = Some (doc_of (frases ?req ! j)
                        (case metadatos ?req of None \<Rightarrow> [] | Some m \<Rightarrow> m) (vecs ! j))
          \<and> visible_doc ?w' (INDEX_NAME demo_cfg) (ids ?resp ! j)
              = Some (doc_of (frases ?req ! j)
                        (case metadatos ?req of None \<Rightarrow> [] | Some m \<Rightarrow> m) (vecs ! j)))"
    by blast
  from emb [rule_format, of 0] emb [rule_format, of 1]
  have v: "vecs ! 0 = [60761 / 100000, 819 / 100000]"
    "vecs ! 1 = [40242 / 100000, 41712 / 100000]"
    by (simp_all add: demo_embed_at demo_fake_embed)
  have d: "distinct (ids ?resp)" by simp
  from st [rule_format, OF d, of 0] st [rule_format, OF d, of 1]
  have "stored_doc ?w' ''phrases_openai'' ''uuid-1''
       = Some (doc_of ''hello world'' [] (vecs ! 0))"
    "stored_doc ?w' ''phrases_openai'' ''uuid-11''
       = Some (doc_of ''hola'' [] (vecs ! 1))"
    by (simp_all add: demo_index)
  with h v show ?thesis by simp
qed

theorem ingest_partial_failure_witness:
  "ingest demo_cfg \<lparr>frases = [''hello world'', ''hola'', []], metadatos = None\<rparr> flaky_world
     = (Inl (EsException ConnectionTimeout),
        snd (ingest demo_cfg \<lparr>frases = [''hello world'', ''hola'', []], metadatos = None\<rparr>
               flaky_world))
   \<and> stored_doc (snd (ingest demo_cfg
                         \<lparr>frases = [''hello world'', ''hola'', []], metadatos = None\<rparr>
                         flaky_world))
        ''phrases_openai'' ''uuid-1''
       = Some (doc_of ''hello world'' [] [60761 / 100000, 819 / 100000])
   \<and> stored_doc (snd (ingest demo_cfg
                         \<lparr>frases = [''hello world'', ''hola'', []], metadatos = None\<rparr>
                         flaky_world))
        ''phrases_openai'' ''uuid-11'' = None
   \<and> es_log (snd (ingest demo_cfg
                      \<lparr>frases = [''hello world'', ''hola'', []], metadatos = None\<rparr>
                      flaky_world))
       = [IndicesExists ''phrases_openai'',
          Index ''phrases_openai'' ''uuid-1''
            (doc_of ''hello world'' [] [60761 / 100000, 819 / 100000]),
          Index ''phrases_openai'' ''uuid-11''
            (doc_of ''hola'' [] [40242 / 100000, 41712 / 100000])]"
proof -
  let ?m = "None :: metadata option"
  let ?meta = "case ?m of None \<Rightarrow> [] | Some x \<Rightarrow> x"
  let ?w1 = "snd (ensure_index demo_cfg flaky_world)"
  let ?w2 = "snd (ingest_loop demo_cfg ?meta [''hello world''] [] ?w1)"
  let ?vec = "[40242 / 100000, 41712 / 100000] :: vector"
  let ?w3 = "snd (es_index (INDEX_NAME demo_cfg) (uuid_supply ?w2 (uuid_calls ?w2))
                    (doc_of ''hola'' ?meta ?vec) (snd (uuid4 ?w2)))"
  let ?e = "EsException ConnectionTimeout"
  have ens: "ensure_index demo_cfg flaky_world = (Inr (), ?w1)"
    by (simp add: prod_eq_iff eval_defs)
  have pre: "ingest_loop demo_cfg ?meta [''hello world''] [] ?w1 = (Inr [''uuid-1''], ?w2)"
    by (simp add: prod_eq_iff eval_defs)
  have emb: "embed demo_cfg ''hola'' (snd (uuid4 ?w2)) = (Inr ?vec, snd (uuid4 ?w2))"
    by (simp add: demo_embed demo_fake_embed)
  have idx: "es_index (INDEX_NAME demo_cfg) (uuid_supply ?w2 (uuid_calls ?w2))
               (doc_of ''hola'' ?meta ?vec) (snd (uuid4 ?w2)) = (Inl ?e, ?w3)"
    by (simp add: prod_eq_iff eval_defs)
  have fail: "embed demo_cfg ''hola'' (snd (uuid4 ?w2)) = (Inl ?e, ?w3)
             \<or> (\<exists>vec wb. embed demo_cfg ''hola'' (snd (uuid4 ?w2)) = (Inr vec, wb)
                  \<and> es_index (INDEX_NAME demo_cfg) (uuid_supply ?w2 (uuid_calls ?w2))
                        (doc_of ''hola'' ?meta vec) wb
                      = (Inl ?e, ?w3))"
    using emb idx by blast
  note inst = ingest_partial_failure [OF ens pre fail, of "[[]]"]
  from inst have whole: "ingest demo_cfg \<lparr>frases = [''hello world'', ''hola'', []], metadatos = None\<rparr>
                   flaky_world = (Inl ?e, ?w3)"
    by simp
  have s1: "stored_doc ?w3 ''phrases_openai'' ''uuid-1''
       = Some (doc_of ''hello world'' [] [60761 / 100000, 819 / 100000])"
    by (simp add: eval_defs)
  have s2: "stored_doc ?w3 ''phrases_openai'' ''uuid-11'' = None"
    by (simp add: eval_defs)
  have l: "es_log ?w3 = [IndicesExists ''phrases_openai'',
          Index ''phrases_openai'' ''uuid-1''
            (doc_of ''hello world'' [] [60761 / 100000, 819 / 100000]),
          Index ''phrases_openai'' ''uuid-11''
            (doc_of ''hola'' [] [40242 / 100000, 41712 / 100000])]"
    by (simp add: eval_defs)
  from whole s1 s2 l show ?thesis by simp
qed

end
